theory Spec2Isabelle
  imports Complex_Main
begin

section \<open>N-step advantage actor-critic objective (agentnet/learning/a2c\_n\_step.py)\<close>

text \<open>
  The module has one function, \<open>get_elementwise_objective\<close>. It builds a symbolic
  expression over batched tensors; this theory models the value that expression has on
  concrete inputs. Inputs are real-valued matrices \<open>[batch][tick]\<close>. The loss is
  computed in numbers that are finite, infinite or not a number: the source computes
  \<open>log\<close> of a probability that may be \<open>0\<close> and guards it with \<open>min_proba\<close>, and a sum
  or a product of finite numbers may overflow. Rounding is not modelled.

  Three helpers (\<open>get_n_step_value_reference\<close>, \<open>get_end_indicator\<close>,
  \<open>get_action_Qvalues\<close>, module \<open>helpers\<close>) and \<open>consider_constant\<close> (module
  \<open>utils.grad\<close>) are imported by the source and are not part of it. The three helpers
  are parameters of the model (record \<open>helpers\<close>); section 4 gives an instance of
  them written from the specification.
\<close>

subsection \<open>1. Numbers, tensors and errors\<close>

datatype error = ShapeMismatch | InvalidConfiguration | IndexOutOfRange

type_synonym 'a result = "error + 'a"

definition bind :: "'a result \<Rightarrow> ('a \<Rightarrow> 'b result) \<Rightarrow> 'b result" where
  "bind m f = (case m of Inl e \<Rightarrow> Inl e | Inr x \<Rightarrow> f x)"

type_synonym matrix = "real list list"

text \<open>A value of the loss: a finite number, an infinity, or not-a-number.\<close>

datatype fval = Fin real | PInf | NInf | NaN

type_synonym tensor = "fval list list"

fun is_finite :: "fval \<Rightarrow> bool" where
  "is_finite (Fin x) = True"
| "is_finite _ = False"

text \<open>The largest finite number of the format (double precision, the default of
  \<open>floatX\<close>). A result of an addition or a multiplication that lies beyond it is an
  infinity; adding zero returns the other operand as it is. Rounding inside the finite
  range is not modelled.\<close>

definition max_float :: real where
  "max_float = (2 - 1 / 2 ^ 52) * 2 ^ 1023"

definition overflow :: "real \<Rightarrow> fval" where
  "overflow z = (if max_float < z then PInf else if z < - max_float then NInf else Fin z)"

instantiation fval :: "{zero, plus, minus, uminus, times}"
begin

definition zero_fval :: fval where
  "zero_fval = Fin 0"

fun uminus_fval :: "fval \<Rightarrow> fval" where
  "uminus_fval (Fin x) = Fin (- x)"
| "uminus_fval PInf = NInf"
| "uminus_fval NInf = PInf"
| "uminus_fval NaN = NaN"

fun plus_fval :: "fval \<Rightarrow> fval \<Rightarrow> fval" where
  "plus_fval NaN _ = NaN"
| "plus_fval _ NaN = NaN"
| "plus_fval (Fin x) (Fin y) =
     (if x = 0 then Fin y else if y = 0 then Fin x else overflow (x + y))"
| "plus_fval PInf NInf = NaN"
| "plus_fval NInf PInf = NaN"
| "plus_fval PInf _ = PInf"
| "plus_fval _ PInf = PInf"
| "plus_fval NInf _ = NInf"
| "plus_fval _ NInf = NInf"

definition minus_fval :: "fval \<Rightarrow> fval \<Rightarrow> fval" where
  "minus_fval a b = a + (- b)"

text \<open>An infinity times zero is not a number; otherwise the signs multiply. A product
  of finite numbers may overflow.\<close>

fun inf_times :: "bool \<Rightarrow> real \<Rightarrow> fval" where
  "inf_times positive y =
     (if y = 0 then NaN else if (0 < y) = positive then PInf else NInf)"

fun times_fval :: "fval \<Rightarrow> fval \<Rightarrow> fval" where
  "times_fval NaN _ = NaN"
| "times_fval _ NaN = NaN"
| "times_fval (Fin x) (Fin y) = overflow (x * y)"
| "times_fval PInf (Fin y) = inf_times True y"
| "times_fval NInf (Fin y) = inf_times False y"
| "times_fval (Fin x) PInf = inf_times True x"
| "times_fval (Fin x) NInf = inf_times False x"
| "times_fval PInf PInf = PInf"
| "times_fval NInf NInf = PInf"
| "times_fval PInf NInf = NInf"
| "times_fval NInf PInf = NInf"

instance ..

end

text \<open>\<open>T.log\<close>: the logarithm of \<open>0\<close> is minus infinity, that of a negative number is
  not a number.\<close>

fun T_log :: "fval \<Rightarrow> fval" where
  "T_log (Fin x) = (if 0 < x then Fin (ln x) else if x = 0 then NInf else NaN)"
| "T_log PInf = PInf"
| "T_log NInf = NaN"
| "T_log NaN = NaN"

text \<open>\<open>T.eq(x, 0)\<close> and \<open>T.switch\<close>, one cell at a time.\<close>

definition T_eq :: "fval \<Rightarrow> fval \<Rightarrow> bool" where
  "T_eq a b = (case (a, b) of (Fin x, Fin y) \<Rightarrow> x = y
                | (PInf, PInf) \<Rightarrow> True | (NInf, NInf) \<Rightarrow> True | _ \<Rightarrow> False)"

definition T_switch :: "bool \<Rightarrow> 'a \<Rightarrow> 'a \<Rightarrow> 'a" where
  "T_switch c a b = (if c then a else b)"

text \<open>\<open>lasagne.objectives.squared_error(a, b) = (a - b) ** 2\<close>.\<close>

definition squared_error :: "fval \<Rightarrow> fval \<Rightarrow> fval" where
  "squared_error a b = (a - b) * (a - b)"

definition as_tensor :: "matrix \<Rightarrow> tensor" where
  "as_tensor m = map (map Fin) m"

definition shape :: "'a list list \<Rightarrow> nat list" where
  "shape m = map length m"

text \<open>An elementwise operation on two tensors. The inputs are matrices without
  broadcastable dimensions, so different shapes are an error.\<close>

definition elemwise :: "('a \<Rightarrow> 'b \<Rightarrow> 'c) \<Rightarrow> 'a list list \<Rightarrow> 'b list list \<Rightarrow> 'c list list result" where
  "elemwise f a b =
     (if shape a = shape b then Inr (map2 (\<lambda>ra rb. map2 f ra rb) a b)
      else Inl ShapeMismatch)"

subsection \<open>2. Parameters of the objective\<close>

text \<open>The keyword arguments with string defaults become tagged values:
  \<open>is_alive = "always"\<close> or a mask, \<open>state_values_after_end = "zeros"\<close> or a
  \<open>[batch][1]\<close> matrix, \<open>n_steps = None\<close> or an integer, \<open>gamma_or_gammas\<close> a single
  value or a \<open>[batch][tick]\<close> array. \<open>scan_dependencies\<close> and \<open>scan_strict\<close> only
  steer how the symbolic loop is compiled and are left out.\<close>

datatype alive = Always | Mask matrix

datatype after_end = Zeros | Values matrix

datatype gammas = Gamma real | Gammas matrix

record options =
  is_alive :: alive
  state_values_target :: "matrix option"
  n_steps :: "int option"
  gamma_or_gammas :: gammas
  crop_last :: bool
  force_values_after_end :: bool
  state_values_after_end :: after_end
  consider_value_reference_constant :: bool
  consider_predicted_value_constant :: bool
  min_proba :: real

text \<open>The defaults of the signature (lines 23 to 34).\<close>

definition default_options :: options where
  "default_options =
     \<lparr> is_alive = Always, state_values_target = None, n_steps = None,
       gamma_or_gammas = Gamma (99 / 100), crop_last = True,
       force_values_after_end = True, state_values_after_end = Zeros,
       consider_value_reference_constant = True,
       consider_predicted_value_constant = True,
       min_proba = 1 / 10 ^ 30 \<rparr>"

text \<open>The imported helpers, as the source calls them:
  \<open>get_n_step_value_reference(state_values_target, rewards, is_alive, n_steps,
  optimal_state_values_after_end, gamma_or_gammas)\<close>,
  \<open>get_end_indicator(is_alive, force_end_at_t_max)\<close> and
  \<open>get_action_Qvalues(policy, actions)\<close>.\<close>

record helpers =
  get_n_step_value_reference ::
    "matrix \<Rightarrow> matrix \<Rightarrow> alive \<Rightarrow> int option \<Rightarrow> after_end \<Rightarrow> gammas \<Rightarrow> matrix result"
  get_end_indicator :: "matrix \<Rightarrow> bool \<Rightarrow> matrix result"
  get_action_Qvalues :: "real list list list \<Rightarrow> int list list \<Rightarrow> matrix result"

text \<open>Modelled from the spec: \<open>consider_constant\<close> of \<open>agentnet/utils/grad.py\<close>, which
  is not among the sources. It detaches its argument from differentiation and leaves
  the value as it is.\<close>

definition consider_constant :: "'a \<Rightarrow> 'a" where
  "consider_constant x = x"

subsection \<open>3. The objective, line by line\<close>

text \<open>Lines 69 to 79: the reference values of the n-step estimator.\<close>

definition n_step_reference :: "helpers \<Rightarrow> matrix \<Rightarrow> matrix \<Rightarrow> options \<Rightarrow> matrix result" where
  "n_step_reference h state_values rewards opts =
     (let target = (case state_values_target opts of None \<Rightarrow> state_values | Some t \<Rightarrow> t)
      in get_n_step_value_reference h target rewards (is_alive opts) (n_steps opts)
           (state_values_after_end opts) (gamma_or_gammas opts))"

text \<open>\<open>m.nonzero()\<close>: the index pairs of the nonzero cells, row by row.\<close>

definition nonzero :: "matrix \<Rightarrow> (nat \<times> nat) list" where
  "nonzero m =
     concat (map (\<lambda>i. map (\<lambda>j. (i, j)) (filter (\<lambda>j. m ! i ! j \<noteq> 0) [0..<length (m ! i)]))
                 [0..<length m])"

definition in_bounds :: "matrix \<Rightarrow> nat \<times> nat \<Rightarrow> bool" where
  "in_bounds m ij = (fst ij < length m \<and> snd ij < length (m ! fst ij))"

text \<open>\<open>m[ids]\<close> for a pair of index arrays: the cells at those pairs.\<close>

definition take_ids :: "matrix \<Rightarrow> (nat \<times> nat) list \<Rightarrow> real list result" where
  "take_ids m ids =
     (if list_all (in_bounds m) ids then Inr (map (\<lambda>ij. m ! fst ij ! snd ij) ids)
      else Inl IndexOutOfRange)"

text \<open>\<open>m[rows, 0]\<close>: column \<open>0\<close> of the listed rows.\<close>

definition take_rows_col0 :: "matrix \<Rightarrow> nat list \<Rightarrow> real list result" where
  "take_rows_col0 m rows =
     (if list_all (\<lambda>i. in_bounds m (i, 0)) rows then Inr (map (\<lambda>i. m ! i ! 0) rows)
      else Inl IndexOutOfRange)"

definition set_cell :: "(nat \<times> nat) \<times> real \<Rightarrow> matrix \<Rightarrow> matrix" where
  "set_cell c m = m[fst (fst c) := (m ! fst (fst c))[snd (fst c) := snd c]]"

text \<open>\<open>T.set_subtensor(m[ids], vals)\<close>: a copy of \<open>m\<close> with the cell at the k-th pair
  set to the k-th value.\<close>

definition set_subtensor_ids :: "matrix \<Rightarrow> (nat \<times> nat) list \<Rightarrow> real list \<Rightarrow> matrix result" where
  "set_subtensor_ids m ids vals =
     (if \<not> list_all (in_bounds m) ids then Inl IndexOutOfRange
      else if length vals \<noteq> length ids then Inl ShapeMismatch
      else Inr (fold set_cell (zip ids vals) m))"

text \<open>Line 95: \<open>rewards[end_ids] + gamma_or_gammas * state_values_after_end[end_ids[0], 0]\<close>.
  With a single discount the product is taken value by value. A \<open>[batch][tick]\<close>
  array of discounts is not indexed by \<open>end_ids\<close>: the product and the sum are then
  two-dimensional and cannot be stored into the one-dimensional selection of line 96.\<close>

definition new_state_values :: "gammas \<Rightarrow> real list \<Rightarrow> real list \<Rightarrow> real list result" where
  "new_state_values g rs vs =
     (case g of
        Gamma c \<Rightarrow> Inr (map2 (\<lambda>r v. r + c * v) rs vs)
      | Gammas a \<Rightarrow> Inl ShapeMismatch)"

text \<open>Lines 82 to 96: the values at the end of a session.\<close>

definition force_after_end :: "helpers \<Rightarrow> matrix \<Rightarrow> options \<Rightarrow> matrix \<Rightarrow> matrix result" where
  "force_after_end h rewards opts reference =
     (case is_alive opts of
        Always \<Rightarrow> Inr reference
      | Mask alive \<Rightarrow>
          if \<not> force_values_after_end opts then Inr reference
          else bind (get_end_indicator h alive True) (\<lambda>ind.
            let end_ids = nonzero ind in
            case state_values_after_end opts of
              Zeros \<Rightarrow>
                bind (take_ids rewards end_ids) (\<lambda>rs.
                  set_subtensor_ids reference end_ids rs)
            | Values after \<Rightarrow>
                bind (take_ids rewards end_ids) (\<lambda>rs.
                bind (take_rows_col0 after (map fst end_ids)) (\<lambda>vs.
                bind (new_state_values (gamma_or_gammas opts) rs vs) (\<lambda>new.
                  set_subtensor_ids reference end_ids new)))))"

text \<open>Lines 105 to 107: \<open>T.set_subtensor(reference[:, -1], state_values[:, -1])\<close>.\<close>

definition set_last_column :: "matrix \<Rightarrow> matrix \<Rightarrow> matrix result" where
  "set_last_column reference state_values =
     (if list_ex (\<lambda>row. row = []) reference \<or> list_ex (\<lambda>row. row = []) state_values
      then Inl IndexOutOfRange
      else if length reference \<noteq> length state_values then Inl ShapeMismatch
      else Inr (map2 (\<lambda>r v. butlast r @ [last v]) reference state_values))"

definition crop_reference :: "matrix \<Rightarrow> options \<Rightarrow> matrix \<Rightarrow> matrix result" where
  "crop_reference state_values opts reference =
     (if crop_last opts then set_last_column reference state_values else Inr reference)"

text \<open>Lines 111 to 120: the logarithm of one selected probability.\<close>

definition log_proba :: "real \<Rightarrow> fval \<Rightarrow> fval" where
  "log_proba minp p =
     (let log_p = T_log p in
      if minp \<noteq> 0 then T_switch (T_eq p 0) (T_log (p + Fin minp)) log_p else log_p)"

definition log_probas :: "options \<Rightarrow> tensor \<Rightarrow> tensor" where
  "log_probas opts action_probas = map (map (log_proba (min_proba opts))) action_probas"

text \<open>Line 122.\<close>

definition observed_state_values :: "options \<Rightarrow> tensor \<Rightarrow> tensor" where
  "observed_state_values opts state_values =
     (if consider_predicted_value_constant opts then consider_constant state_values
      else state_values)"

text \<open>Lines 108 and 109.\<close>

definition constant_reference :: "options \<Rightarrow> tensor \<Rightarrow> tensor" where
  "constant_reference opts reference =
     (if consider_value_reference_constant opts then consider_constant reference
      else reference)"

text \<open>Line 124: \<open>- log_probas * (reference_state_values - observed_state_values)\<close>.\<close>

definition policy_loss_elwise :: "tensor \<Rightarrow> tensor \<Rightarrow> tensor \<Rightarrow> tensor result" where
  "policy_loss_elwise logp reference observed =
     bind (elemwise (\<lambda>r v. r - v) reference observed) (\<lambda>advantage.
       elemwise (\<lambda>l a. - l * a) logp advantage)"

text \<open>Line 127.\<close>

definition V_err_elwise :: "tensor \<Rightarrow> tensor \<Rightarrow> tensor result" where
  "V_err_elwise reference state_values = elemwise squared_error reference state_values"

text \<open>Line 100: \<open>T.ones_like(actions)\<close> when the agent is always alive.\<close>

definition alive_mask :: "options \<Rightarrow> int list list \<Rightarrow> matrix" where
  "alive_mask opts actions =
     (case is_alive opts of Always \<Rightarrow> map (map (\<lambda>_. 1)) actions | Mask m \<Rightarrow> m)"

text \<open>The reference values that enter the loss: lines 69 to 109 without the call of
  line 103.\<close>

definition reference_state_values :: "helpers \<Rightarrow> matrix \<Rightarrow> matrix \<Rightarrow> options \<Rightarrow> tensor result" where
  "reference_state_values h state_values rewards opts =
     bind (n_step_reference h state_values rewards opts) (\<lambda>r0.
     bind (force_after_end h rewards opts r0) (\<lambda>r1.
     bind (crop_reference state_values opts r1) (\<lambda>r2.
       Inr (constant_reference opts (as_tensor r2)))))"

text \<open>The whole function, in the order of the source.\<close>

definition get_elementwise_objective ::
  "helpers \<Rightarrow> real list list list \<Rightarrow> matrix \<Rightarrow> int list list \<Rightarrow> matrix \<Rightarrow> options \<Rightarrow> tensor result" where
  "get_elementwise_objective h policy state_values actions rewards opts =
     bind (n_step_reference h state_values rewards opts) (\<lambda>r0.
     bind (force_after_end h rewards opts r0) (\<lambda>r1.
     let alive = alive_mask opts actions in
     bind (get_action_Qvalues h policy actions) (\<lambda>action_probas.
     bind (crop_reference state_values opts r1) (\<lambda>r2.
     let reference = constant_reference opts (as_tensor r2);
         logp = log_probas opts (as_tensor action_probas);
         observed = observed_state_values opts (as_tensor state_values) in
     bind (policy_loss_elwise logp reference observed) (\<lambda>policy_loss.
     bind (V_err_elwise reference (as_tensor state_values)) (\<lambda>V_err.
     bind (elemwise (\<lambda>a b. a + b) policy_loss V_err) (\<lambda>total.
       elemwise (\<lambda>l a. l * a) total (as_tensor alive))))))))"

text \<open>The sum \<open>policy_loss_elwise + V_err_elwise\<close> of line 129, before it is multiplied by
  the liveness mask.\<close>

definition unmasked_loss ::
  "helpers \<Rightarrow> real list list list \<Rightarrow> matrix \<Rightarrow> int list list \<Rightarrow> matrix \<Rightarrow> options \<Rightarrow> tensor result" where
  "unmasked_loss h policy state_values actions rewards opts =
     bind (n_step_reference h state_values rewards opts) (\<lambda>r0.
     bind (force_after_end h rewards opts r0) (\<lambda>r1.
     bind (get_action_Qvalues h policy actions) (\<lambda>action_probas.
     bind (crop_reference state_values opts r1) (\<lambda>r2.
     let reference = constant_reference opts (as_tensor r2);
         logp = log_probas opts (as_tensor action_probas);
         observed = observed_state_values opts (as_tensor state_values) in
     bind (policy_loss_elwise logp reference observed) (\<lambda>policy_loss.
     bind (V_err_elwise reference (as_tensor state_values)) (\<lambda>V_err.
       elemwise (\<lambda>a b. a + b) policy_loss V_err))))))"

subsection \<open>4. The imported helpers, from the specification\<close>

text \<open>Modelled from the spec: the three functions that the source imports from
  \<open>agentnet/learning/helpers.py\<close>, a file that is not among the sources. Every definition
  of this subsection up to \<open>spec_helpers\<close> is written from the specification (its
  sections 4.1, 4.2 and 7), not from code.\<close>

text \<open>One tick of one row, as the return estimator reads it: the reward, the liveness
  flag, the discount, and the target value of the next tick (the value after the end
  at the last tick).\<close>

record tick =
  reward :: real
  alive_flag :: real
  discount :: real
  next_value :: real

text \<open>Modelled from the spec: the backward recurrence of the return estimator
  (\<open>get_n_step_value_reference\<close> of \<open>agentnet/learning/helpers.py\<close>, which is not
  among the sources). The row is walked from the last tick to the first. The walk
  carries the running value \<open>G\<close>, which starts as the value after the end, and the
  number \<open>k\<close> of transitions accumulated in it. A tick sets
  \<open>G_t = rewards[t] + gamma_t * G_{t+1}\<close>; when the window of \<open>n_steps\<close>
  transitions is used up, the target value of the next tick stands in for
  \<open>G_{t+1}\<close>, unless the next tick is not alive: a value of an ended segment is not
  carried over, and \<open>0\<close> stands in. After a tick that is not alive the running value
  restarts at \<open>0\<close>, so nothing is accumulated across it either.\<close>

fun backward_walk :: "nat option \<Rightarrow> real \<Rightarrow> tick list \<Rightarrow> real list \<times> real \<times> nat" where
  "backward_walk n after [] = ([], after, 0)"
| "backward_walk n after (x # xs) =
     (case backward_walk n after xs of (refs, G, k) \<Rightarrow>
        let truncated = (case n of None \<Rightarrow> False | Some w \<Rightarrow> w \<le> k);
            next_dead = (case xs of [] \<Rightarrow> False | y # _ \<Rightarrow> alive_flag y = 0);
            bootstrap = (if next_dead then 0 else next_value x);
            Gt = reward x + discount x * (if truncated then bootstrap else G)
        in (Gt # refs,
            if alive_flag x = 0 then 0 else Gt,
            if truncated then 1 else k + 1))"

definition ticks_of :: "real list \<Rightarrow> real list \<Rightarrow> real list \<Rightarrow> real list \<Rightarrow> real \<Rightarrow> tick list" where
  "ticks_of rs as gs vs after =
     map (\<lambda>t. \<lparr> reward = rs ! t, alive_flag = as ! t, discount = gs ! t,
               next_value = (if Suc t < length vs then vs ! Suc t else after) \<rparr>)
         [0..<length rs]"

definition estimate_row ::
  "nat option \<Rightarrow> real list \<Rightarrow> real list \<Rightarrow> real list \<Rightarrow> real list \<Rightarrow> real \<Rightarrow> real list" where
  "estimate_row n vs rs as gs after = fst (backward_walk n after (ticks_of rs as gs vs after))"

definition alive_matrix :: "alive \<Rightarrow> matrix \<Rightarrow> matrix" where
  "alive_matrix a rewards = (case a of Always \<Rightarrow> map (map (\<lambda>_. 1)) rewards | Mask m \<Rightarrow> m)"

definition gamma_matrix :: "gammas \<Rightarrow> matrix \<Rightarrow> matrix" where
  "gamma_matrix g rewards = (case g of Gamma c \<Rightarrow> map (map (\<lambda>_. c)) rewards | Gammas m \<Rightarrow> m)"

definition after_end_column :: "after_end \<Rightarrow> matrix \<Rightarrow> real list result" where
  "after_end_column a rewards =
     (case a of
        Zeros \<Rightarrow> Inr (map (\<lambda>_. 0) rewards)
      | Values m \<Rightarrow>
          if length m = length rewards \<and> list_all (\<lambda>row. row \<noteq> []) m
          then Inr (map hd m) else Inl ShapeMismatch)"

text \<open>Modelled from the spec: the return estimator \<open>get_n_step_value_reference\<close>. A
  horizon that is not positive is an invalid configuration; target values, rewards,
  liveness flags (and an array of discounts) of different shapes are a shape
  mismatch; otherwise every row is estimated on its own.\<close>

definition spec_n_step_value_reference ::
  "matrix \<Rightarrow> matrix \<Rightarrow> alive \<Rightarrow> int option \<Rightarrow> after_end \<Rightarrow> gammas \<Rightarrow> matrix result" where
  "spec_n_step_value_reference target rewards a n after g =
     (if (case n of None \<Rightarrow> False | Some w \<Rightarrow> w \<le> 0) then Inl InvalidConfiguration
      else if shape target = shape rewards \<and> shape (alive_matrix a rewards) = shape rewards
              \<and> shape (gamma_matrix g rewards) = shape rewards
      then bind (after_end_column after rewards) (\<lambda>ends.
        Inr (map (\<lambda>i. estimate_row (map_option nat n) (target ! i) (rewards ! i)
                         (alive_matrix a rewards ! i) (gamma_matrix g rewards ! i) (ends ! i))
                 [0..<length rewards]))
      else Inl ShapeMismatch)"

text \<open>Modelled from the spec: \<open>get_end_indicator\<close> of \<open>agentnet/learning/helpers.py\<close>.
  A tick is at an episode boundary when the row is alive there and not alive at the
  next tick; with \<open>force_end_at_t_max\<close> the last tick is a boundary too. (The
  specification leaves open whether the boundary is the last live tick or the first
  dead one; the theorems about the objective hold for every indicator.)\<close>

definition end_row :: "bool \<Rightarrow> real list \<Rightarrow> real list" where
  "end_row force as =
     map (\<lambda>t. if (as ! t \<noteq> 0 \<and> Suc t < length as \<and> as ! Suc t = 0)
                  \<or> (force \<and> Suc t = length as) then 1 else 0)
         [0..<length as]"

definition spec_end_indicator :: "matrix \<Rightarrow> bool \<Rightarrow> matrix result" where
  "spec_end_indicator alive force =
     (if force \<and> list_ex (\<lambda>row. row = []) alive then Inl IndexOutOfRange
      else Inr (map (end_row force) alive))"

text \<open>Modelled from the spec: \<open>get_action_Qvalues\<close> of \<open>agentnet/learning/helpers.py\<close>:
  the probability \<open>policy[row, tick, actions[row, tick]]\<close> of every cell, and an error
  for an action outside \<open>[0, num_actions)\<close>.\<close>

definition select_action :: "real list \<Rightarrow> int \<Rightarrow> real result" where
  "select_action probs a =
     (if 0 \<le> a \<and> a < int (length probs) then Inr (probs ! nat a) else Inl IndexOutOfRange)"

fun sequence :: "'a result list \<Rightarrow> 'a list result" where
  "sequence [] = Inr []"
| "sequence (x # xs) = bind x (\<lambda>y. bind (sequence xs) (\<lambda>ys. Inr (y # ys)))"

definition spec_action_Qvalues :: "real list list list \<Rightarrow> int list list \<Rightarrow> matrix result" where
  "spec_action_Qvalues policy actions =
     (if shape policy = shape actions
      then sequence (map2 (\<lambda>ps as. sequence (map2 select_action ps as)) policy actions)
      else Inl ShapeMismatch)"

definition spec_helpers :: helpers where
  "spec_helpers =
     \<lparr> get_n_step_value_reference = spec_n_step_value_reference,
       get_end_indicator = spec_end_indicator,
       get_action_Qvalues = spec_action_Qvalues \<rparr>"

text \<open>Two notions used to state the results. A cell is marked by an end indicator when
  the indicator is nonzero there; \<open>cell_loss\<close> is the value of lines 111 to 129 at one
  cell with selected probability \<open>p\<close>, reference value \<open>r\<close>, predicted value \<open>v\<close> and
  liveness flag \<open>a\<close>.\<close>

definition at_end :: "matrix \<Rightarrow> nat \<Rightarrow> nat \<Rightarrow> bool" where
  "at_end ind i t = (i < length ind \<and> t < length (ind ! i) \<and> ind ! i ! t \<noteq> 0)"

definition cell_loss :: "real \<Rightarrow> real \<Rightarrow> real \<Rightarrow> real \<Rightarrow> real \<Rightarrow> fval" where
  "cell_loss minp p r v a =
     (- log_proba minp (Fin p) * (Fin r - Fin v) + squared_error (Fin r) (Fin v)) * Fin a"

subsection \<open>5. Derivatives\<close>

text \<open>A gradient is read off one cell at a time, in forward mode: every quantity is
  paired with its derivative along a direction in which the inputs are perturbed.\<close>

datatype dual = Dual (primal: real) (tangent: real)

instantiation dual :: "{plus, minus, uminus, times}"
begin

fun plus_dual :: "dual \<Rightarrow> dual \<Rightarrow> dual" where
  "plus_dual (Dual a da) (Dual b db) = Dual (a + b) (da + db)"

fun uminus_dual :: "dual \<Rightarrow> dual" where
  "uminus_dual (Dual a da) = Dual (- a) (- da)"

fun minus_dual :: "dual \<Rightarrow> dual \<Rightarrow> dual" where
  "minus_dual (Dual a da) (Dual b db) = Dual (a - b) (da - db)"

fun times_dual :: "dual \<Rightarrow> dual \<Rightarrow> dual" where
  "times_dual (Dual a da) (Dual b db) = Dual (a * b) (da * b + a * db)"

instance ..

end

text \<open>\<open>consider_constant\<close> (\<open>agentnet/utils/grad.py\<close>) is not among the sources. It is a
  parameter \<open>cc\<close> of the definitions below; the specification's contract for it is
  that the value stays and the derivative is defined to be zero.\<close>

definition detaches :: "(dual \<Rightarrow> dual) \<Rightarrow> bool" where
  "detaches cc = (\<forall>d. cc d = Dual (primal d) 0)"

text \<open>Lines 108 and 109, line 122, line 124 and line 127 at one cell, with derivatives.\<close>

definition reference_dual :: "(dual \<Rightarrow> dual) \<Rightarrow> options \<Rightarrow> dual \<Rightarrow> dual" where
  "reference_dual cc opts reference =
     (if consider_value_reference_constant opts then cc reference else reference)"

definition observed_dual :: "(dual \<Rightarrow> dual) \<Rightarrow> options \<Rightarrow> dual \<Rightarrow> dual" where
  "observed_dual cc opts state_value =
     (if consider_predicted_value_constant opts then cc state_value else state_value)"

definition policy_loss_dual :: "(dual \<Rightarrow> dual) \<Rightarrow> options \<Rightarrow> dual \<Rightarrow> dual \<Rightarrow> dual \<Rightarrow> dual" where
  "policy_loss_dual cc opts logp reference state_value =
     - logp * (reference_dual cc opts reference - observed_dual cc opts state_value)"

definition V_err_dual :: "(dual \<Rightarrow> dual) \<Rightarrow> options \<Rightarrow> dual \<Rightarrow> dual \<Rightarrow> dual" where
  "V_err_dual cc opts reference state_value =
     (reference_dual cc opts reference - state_value)
     * (reference_dual cc opts reference - state_value)"

subsection \<open>6. Basic facts\<close>

lemma bind_Inr_iff: "bind m f = Inr y \<longleftrightarrow> (\<exists>x. m = Inr x \<and> f x = Inr y)"
  by (cases m) (simp_all add: bind_def)

lemma shape_eq_iff:
  "shape a = shape b \<longleftrightarrow> length a = length b \<and> (\<forall>i<length a. length (a ! i) = length (b ! i))"
  unfolding shape_def by (auto simp: list_eq_iff_nth_eq)

lemma shape_as_tensor: "shape (as_tensor m) = shape m"
  by (simp add: shape_def as_tensor_def comp_def)

lemma as_tensor_nth: "i < length m \<Longrightarrow> j < length (m ! i) \<Longrightarrow> as_tensor m ! i ! j = Fin (m ! i ! j)"
  by (simp add: as_tensor_def)

lemma length_as_tensor [simp]: "length (as_tensor m) = length m"
  by (simp add: as_tensor_def)

lemma length_as_tensor_nth [simp]: "i < length m \<Longrightarrow> length (as_tensor m ! i) = length (m ! i)"
  by (simp add: as_tensor_def)

lemma as_tensor_last:
  "i < length m \<Longrightarrow> m ! i \<noteq> [] \<Longrightarrow> last (as_tensor m ! i) = Fin (last (m ! i))"
  by (simp add: as_tensor_def last_map)

lemma last_cell:
  assumes "shape m = shape v" "i < length v" "v ! i \<noteq> []"
  shows "last (m ! i) = m ! i ! (length (v ! i) - 1)"
proof -
  from assms have l: "length (m ! i) = length (v ! i)" by (simp add: shape_eq_iff)
  with assms(3) have "m ! i \<noteq> []" by auto
  then show ?thesis by (simp add: last_conv_nth l)
qed

lemma elemwise_Inr:
  assumes "elemwise f a b = Inr c"
  shows "shape a = shape b" and "shape c = shape a"
    and "\<And>i j. i < length a \<Longrightarrow> j < length (a ! i) \<Longrightarrow> c ! i ! j = f (a ! i ! j) (b ! i ! j)"
proof -
  show s: "shape a = shape b"
    using assms by (auto simp: elemwise_def split: if_splits)
  have c: "c = map2 (\<lambda>ra rb. map2 f ra rb) a b"
    using assms by (auto simp: elemwise_def split: if_splits)
  from s have l: "length a = length b" and r: "\<And>i. i < length a \<Longrightarrow> length (a ! i) = length (b ! i)"
    by (simp_all add: shape_eq_iff)
  show "shape c = shape a"
    using l r by (simp add: shape_eq_iff c)
  show "c ! i ! j = f (a ! i ! j) (b ! i ! j)" if "i < length a" "j < length (a ! i)" for i j
    using that l r[of i] by (simp add: c)
qed

lemma elemwise_ok: "shape a = shape b \<Longrightarrow> \<exists>c. elemwise f a b = Inr c"
  by (simp add: elemwise_def)

lemma max_float_pos: "0 < max_float"
  by (simp add: max_float_def)

lemma overflow_zero [simp]: "overflow 0 = Fin 0"
  using max_float_pos by (simp add: overflow_def)

lemma overflow_Fin: "- max_float \<le> z \<Longrightarrow> z \<le> max_float \<Longrightarrow> overflow z = Fin z"
  by (simp add: overflow_def)

lemma zero_fval_Fin [simp]: "(0::fval) = Fin 0"
  by (simp add: zero_fval_def)

lemma Fin_minus_self [simp]: "Fin x - Fin x = Fin 0"
  by (simp add: minus_fval_def)

lemma Fin_times_zero [simp]: "Fin x * Fin 0 = Fin 0" "Fin 0 * Fin x = Fin 0"
  by simp_all

lemma squared_error_self [simp]: "squared_error (Fin x) (Fin x) = Fin 0"
  by (simp add: squared_error_def)

lemma times_zero: "x * Fin 0 = (if is_finite x then Fin 0 else NaN)"
  by (cases x) simp_all

lemma is_finite_iff: "is_finite x \<longleftrightarrow> (\<exists>r. x = Fin r)"
  by (cases x) simp_all

lemma constant_reference_id [simp]: "constant_reference opts r = r"
  by (simp add: constant_reference_def consider_constant_def)

lemma observed_state_values_id [simp]: "observed_state_values opts v = v"
  by (simp add: observed_state_values_def consider_constant_def)


subsection \<open>7. The values at the end of a session\<close>

lemma nonzero_set:
  "(i, j) \<in> set (nonzero m) \<longleftrightarrow> i < length m \<and> j < length (m ! i) \<and> m ! i ! j \<noteq> 0"
  by (auto simp: nonzero_def)

lemma distinct_concat_rows:
  assumes "\<And>i. distinct (f i)" and "\<And>i x. x \<in> set (f i) \<Longrightarrow> fst x = i"
  shows "distinct (concat (map f [0..<n]))"
proof (induction n)
  case 0
  show ?case by simp
next
  case (Suc n)
  have "set (concat (map f [0..<n])) \<inter> set (f n) = {}"
  proof (rule ccontr)
    assume "set (concat (map f [0..<n])) \<inter> set (f n) \<noteq> {}"
    then obtain x where a: "x \<in> set (concat (map f [0..<n]))" and b: "x \<in> set (f n)"
      by blast
    from a obtain i where "i < n" "x \<in> set (f i)" by auto
    with b assms(2)[of x n] assms(2)[of x i] show False by simp
  qed
  with Suc assms(1) show ?case by simp
qed

lemma nonzero_distinct: "distinct (nonzero m)"
  unfolding nonzero_def
  by (rule distinct_concat_rows) (auto simp: distinct_map inj_on_def)

lemma in_bounds_shape: "shape m = shape m' \<Longrightarrow> in_bounds m ij = in_bounds m' ij"
  by (auto simp: in_bounds_def shape_eq_iff)

lemma set_cell_shape: "shape (set_cell c m) = shape m"
proof -
  have "length ((set_cell c m) ! i) = length (m ! i)" if "i < length m" for i
    using that by (cases "i = fst (fst c)") (simp_all add: set_cell_def)
  then show ?thesis by (simp add: shape_eq_iff) (simp add: set_cell_def)
qed

lemma set_cell_nth:
  assumes "i < length m" "j < length (m ! i)"
  shows "set_cell ((a, b), v) m ! i ! j = (if (i, j) = (a, b) then v else m ! i ! j)"
proof (cases "i = a")
  case True
  with assms show ?thesis by (cases "j = b") (simp_all add: set_cell_def)
next
  case False
  with assms show ?thesis by (simp add: set_cell_def)
qed

lemma fold_set_cell:
  assumes "distinct ids"
  shows "shape (fold set_cell (zip ids (map g ids)) m) = shape m"
    and "i < length m \<Longrightarrow> j < length (m ! i) \<Longrightarrow>
         fold set_cell (zip ids (map g ids)) m ! i ! j = (if (i, j) \<in> set ids then g (i, j) else m ! i ! j)"
  using assms
proof (induction ids arbitrary: m)
  case Nil
  { case 1 show ?case by simp }
  { case 2 then show ?case by simp }
next
  case (Cons x xs)
  obtain a b where x: "x = (a, b)" by (cases x)
  { case 1
    then have d: "distinct xs" by simp
    show ?case using Cons.IH(1)[OF d, of "set_cell (x, g x) m"]
      by (simp add: set_cell_shape) }
  { case 2
    let ?m1 = "set_cell (x, g x) m"
    have s1: "shape ?m1 = shape m" by (rule set_cell_shape)
    from 2 have d: "distinct xs" and nx: "x \<notin> set xs" by simp_all
    from 2 s1 have b1: "i < length ?m1" "j < length (?m1 ! i)"
      by (simp_all add: shape_eq_iff)
    have "fold set_cell (zip (x # xs) (map g (x # xs))) m ! i ! j
          = fold set_cell (zip xs (map g xs)) ?m1 ! i ! j" by simp
    also have "\<dots> = (if (i, j) \<in> set xs then g (i, j) else ?m1 ! i ! j)"
      using Cons.IH(2)[OF b1 d] .
    also have "\<dots> = (if (i, j) \<in> set (x # xs) then g (i, j) else m ! i ! j)"
      using nx 2(1,2) by (auto simp: x set_cell_nth)
    finally show ?case . }
qed

lemma take_ids_Inr: "take_ids m ids = Inr vs \<Longrightarrow> vs = map (\<lambda>ij. m ! fst ij ! snd ij) ids"
  by (auto simp: take_ids_def split: if_splits)

lemma take_rows_col0_Inr:
  "take_rows_col0 m (map fst ids) = Inr vs \<Longrightarrow> vs = map (\<lambda>ij. m ! fst ij ! 0) ids"
  by (auto simp: take_rows_col0_def split: if_splits)

lemma set_subtensor_ids_Inr:
  assumes "set_subtensor_ids m ids (map g ids) = Inr m'" and "distinct ids"
  shows "shape m' = shape m"
    and "i < length m \<Longrightarrow> j < length (m ! i) \<Longrightarrow>
         m' ! i ! j = (if (i, j) \<in> set ids then g (i, j) else m ! i ! j)"
proof -
  from assms(1) have m': "m' = fold set_cell (zip ids (map g ids)) m"
    by (auto simp: set_subtensor_ids_def split: if_splits)
  show "shape m' = shape m"
    unfolding m' by (rule fold_set_cell(1)[OF assms(2)])
  show "m' ! i ! j = (if (i, j) \<in> set ids then g (i, j) else m ! i ! j)"
    if "i < length m" "j < length (m ! i)"
    unfolding m' by (rule fold_set_cell(2)[OF assms(2) that])
qed

lemma new_state_values_Inr:
  assumes "new_state_values g (map r ids) (map v ids) = Inr new"
  shows "\<exists>c. g = Gamma c \<and> new = map (\<lambda>ij. r ij + c * v ij) ids"
  using assms by (cases g) (simp_all add: new_state_values_def map2_map_map)


lemma spec_end_indicator_marks:
  assumes "spec_end_indicator alive True = Inr ind"
  shows "at_end ind i t \<longleftrightarrow>
           i < length alive \<and> t < length (alive ! i)
           \<and> ((alive ! i ! t \<noteq> 0 \<and> Suc t < length (alive ! i) \<and> alive ! i ! Suc t = 0)
              \<or> Suc t = length (alive ! i))"
proof -
  from assms have ind: "ind = map (end_row True) alive"
    by (auto simp: spec_end_indicator_def split: if_splits)
  show ?thesis
    unfolding ind at_end_def by (auto simp: end_row_def split: if_splits)
qed

text \<open>What lines 82 to 96 do when they return. With a liveness mask and
  \<open>force_values_after_end\<close>, the reference value of every cell that the end indicator marks
  is replaced: by the immediate reward when \<open>state_values_after_end\<close> is \<open>"zeros"\<close>, and by
  the reward plus the discount times the value after the end of that row when a tensor is
  given; the discount is then a single value. Every other cell keeps the value it had.
  This holds for every end indicator the helper may compute; the indicator written from
  the specification marks the ticks where a row ends alive and the last tick.\<close>

theorem terminal_override_cells:
  assumes "is_alive opts = Mask alive" and "force_values_after_end opts"
    and "get_end_indicator h alive True = Inr ind"
    and "force_after_end h rewards opts reference = Inr forced"
    and "i < length reference" and "t < length (reference ! i)"
  shows "if at_end ind i t
         then (case state_values_after_end opts of
                 Zeros \<Rightarrow> forced ! i ! t = rewards ! i ! t
               | Values after \<Rightarrow>
                   \<exists>c. gamma_or_gammas opts = Gamma c
                     \<and> forced ! i ! t = rewards ! i ! t + c * after ! i ! 0)
         else forced ! i ! t = reference ! i ! t"
proof -
  let ?ids = "nonzero ind"
  have mem: "(i, t) \<in> set ?ids \<longleftrightarrow> at_end ind i t"
    by (simp add: nonzero_set at_end_def)
  show ?thesis
  proof (cases "state_values_after_end opts")
    case Zeros
    let ?g = "\<lambda>ij. rewards ! fst ij ! snd ij"
    from assms(1-4) Zeros obtain rs where rs: "take_ids rewards ?ids = Inr rs"
      and set: "set_subtensor_ids reference ?ids rs = Inr forced"
      by (auto simp: force_after_end_def bind_Inr_iff Let_def)
    from take_ids_Inr[OF rs] set
    have "set_subtensor_ids reference ?ids (map ?g ?ids) = Inr forced" by simp
    from set_subtensor_ids_Inr(2)[OF this nonzero_distinct assms(5,6)]
    show ?thesis using Zeros mem by simp
  next
    case (Values after)
    let ?r = "\<lambda>ij. rewards ! fst ij ! snd ij"
    let ?v = "\<lambda>ij. after ! fst ij ! 0"
    from assms(1-4) Values obtain rs vs new where rs: "take_ids rewards ?ids = Inr rs"
      and vs: "take_rows_col0 after (map fst ?ids) = Inr vs"
      and new: "new_state_values (gamma_or_gammas opts) rs vs = Inr new"
      and set: "set_subtensor_ids reference ?ids new = Inr forced"
      by (auto simp: force_after_end_def bind_Inr_iff Let_def)
    from new take_ids_Inr[OF rs] take_rows_col0_Inr[OF vs]
    have "new_state_values (gamma_or_gammas opts) (map ?r ?ids) (map ?v ?ids) = Inr new"
      by simp
    from new_state_values_Inr[OF this] obtain c where c: "gamma_or_gammas opts = Gamma c"
      and new': "new = map (\<lambda>ij. ?r ij + c * ?v ij) ?ids" by blast
    from set new'
    have "set_subtensor_ids reference ?ids (map (\<lambda>ij. ?r ij + c * ?v ij) ?ids) = Inr forced"
      by simp
    from set_subtensor_ids_Inr(2)[OF this nonzero_distinct assms(5,6)]
    show ?thesis using Values mem c by simp
  qed
qed

theorem terminal_override_cells_witness:
  "is_alive (default_options\<lparr>is_alive := Mask [[1, 1, 0]], state_values_after_end := Values [[7]]\<rparr>)
     = Mask [[1, 1, 0]]
   \<and> force_values_after_end
       (default_options\<lparr>is_alive := Mask [[1, 1, 0]], state_values_after_end := Values [[7]]\<rparr>)
   \<and> get_end_indicator spec_helpers [[1, 1, 0]] True = Inr [[0, 1, 1]]
   \<and> force_after_end spec_helpers [[1, 2, 3]]
       (default_options\<lparr>is_alive := Mask [[1, 1, 0]], state_values_after_end := Values [[7]]\<rparr>)
       [[10, 20, 30]] = Inr [[10, 893 / 100, 993 / 100]]
   \<and> ([[10, 893 / 100, 993 / 100]] :: matrix) ! 0 ! 1 = [[1, 2, 3]] ! 0 ! 1 + 99 / 100 * [[7]] ! 0 ! 0
   \<and> ([[10, 893 / 100, 993 / 100]] :: matrix) ! 0 ! 0 = [[10, 20, 30]] ! 0 ! 0"
proof -
  let ?o = "default_options\<lparr>is_alive := Mask [[1, 1, 0]], state_values_after_end := Values [[7]]\<rparr>"
  have h1: "is_alive ?o = Mask [[1, 1, 0]]" by simp
  have h2: "force_values_after_end ?o" by (simp add: default_options_def)
  have h3: "get_end_indicator spec_helpers [[1, 1, 0]] True = Inr [[0, 1, 1]]" by code_simp
  have h4: "force_after_end spec_helpers [[1, 2, 3]] ?o [[10, 20, 30]]
              = Inr [[10, 893 / 100, 993 / 100]]" by code_simp
  from terminal_override_cells[OF h1 h2 h3 h4, of 0 1]
       terminal_override_cells[OF h1 h2 h3 h4, of 0 0]
  show ?thesis using h1 h2 h3 h4 by (simp add: at_end_def default_options_def)
qed


text \<open>With the end indicator of the specification, the marked cells are the ticks at
  which a row is alive and not alive at the next tick, and the last tick of every
  row.\<close>

lemma terminal_override_at_boundaries:
  assumes "is_alive opts = Mask alive" and "force_values_after_end opts"
    and "get_end_indicator h alive True = spec_end_indicator alive True"
    and "force_after_end h rewards opts reference = Inr forced"
    and "i < length reference" and "t < length (reference ! i)"
  shows "if i < length alive \<and> t < length (alive ! i)
            \<and> ((alive ! i ! t \<noteq> 0 \<and> Suc t < length (alive ! i) \<and> alive ! i ! Suc t = 0)
               \<or> Suc t = length (alive ! i))
         then (case state_values_after_end opts of
                 Zeros \<Rightarrow> forced ! i ! t = rewards ! i ! t
               | Values after \<Rightarrow>
                   \<exists>c. gamma_or_gammas opts = Gamma c
                     \<and> forced ! i ! t = rewards ! i ! t + c * after ! i ! 0)
         else forced ! i ! t = reference ! i ! t"
proof -
  from assms(1,2,4) obtain ind where ind: "get_end_indicator h alive True = Inr ind"
    by (auto simp: force_after_end_def bind_Inr_iff)
  with assms(3) have "spec_end_indicator alive True = Inr ind" by simp
  from spec_end_indicator_marks[OF this, of i t]
       terminal_override_cells[OF assms(1,2) ind assms(4,5,6)]
  show ?thesis by simp
qed

lemma array_discounts_never_return:
  assumes "is_alive opts = Mask alive" and "force_values_after_end opts"
    and "state_values_after_end opts = Values after" and "gamma_or_gammas opts = Gammas g"
  shows "force_after_end h rewards opts reference \<noteq> Inr forced"
  using assms
  by (auto simp: force_after_end_def bind_Inr_iff Let_def new_state_values_def)

text \<open>Claim C3. With a liveness mask and \<open>force_values_after_end\<close>, the reference value at
  every episode boundary is to be replaced by the reward, or by the reward plus
  \<open>gamma_or_gammas\<close> times the value after the end when a tensor of such values is given.
  For an array of discounts, which the signature documents, the code does not do this:
  line 95 multiplies the whole array with the values of the boundary cells instead of its
  entries at \<open>end_ids\<close>, the result cannot be stored by line 96, and the call fails. Here,
  one row of three ticks that ends after the second.\<close>

theorem array_discounts_raise:
  "force_after_end spec_helpers [[1, 2, 3]]
     (default_options\<lparr>is_alive := Mask [[1, 1, 0]], state_values_after_end := Values [[7]],
        gamma_or_gammas := Gammas [[1 / 2, 1 / 2, 1 / 2]]\<rparr>)
     [[10, 20, 30]] = Inl ShapeMismatch
   \<and> get_elementwise_objective spec_helpers [[[1 / 2, 1 / 2], [1 / 2, 1 / 2], [1 / 2, 1 / 2]]]
       [[10, 20, 30]] [[0, 0, 0]] [[1, 2, 3]]
       (default_options\<lparr>is_alive := Mask [[1, 1, 0]], state_values_after_end := Values [[7]],
          gamma_or_gammas := Gammas [[1 / 2, 1 / 2, 1 / 2]]\<rparr>) = Inl ShapeMismatch"
proof -
  let ?o = "default_options\<lparr>is_alive := Mask [[1, 1, 0]], state_values_after_end := Values [[7]],
        gamma_or_gammas := Gammas [[1 / 2, 1 / 2, 1 / 2]]\<rparr>"
  have r0: "n_step_reference spec_helpers [[10, 20, 30]] [[1, 2, 3]] ?o = Inr [[2, 2, 13 / 2]]"
    by code_simp
  have f: "force_after_end spec_helpers [[1, 2, 3]] ?o r = Inl ShapeMismatch" for r
    by (simp add: force_after_end_def new_state_values_def spec_helpers_def
        spec_end_indicator_def default_options_def bind_def take_ids_def take_rows_col0_def
        nonzero_def end_row_def in_bounds_def upt_conv_Cons)
  show ?thesis
    by (simp add: f get_elementwise_objective_def r0 bind_def)
qed

subsection \<open>8. The last column\<close>

lemma set_last_column_Inr:
  assumes "set_last_column r v = Inr r'"
  shows "length r = length v" and "shape r' = shape r"
    and "i < length r \<Longrightarrow> r ! i \<noteq> [] \<and> v ! i \<noteq> [] \<and> r' ! i = butlast (r ! i) @ [last (v ! i)]"
proof -
  from assms have ne: "\<forall>row\<in>set r. row \<noteq> []" "\<forall>row\<in>set v. row \<noteq> []"
    and l: "length r = length v"
    and r': "r' = map2 (\<lambda>r v. butlast r @ [last v]) r v"
    by (auto simp: set_last_column_def list_ex_iff split: if_splits)
  show "length r = length v" by (rule l)
  have row: "r ! i \<noteq> [] \<and> v ! i \<noteq> [] \<and> r' ! i = butlast (r ! i) @ [last (v ! i)]"
    if "i < length r" for i
    using that ne l by (simp add: r')
  then show "i < length r \<Longrightarrow> r ! i \<noteq> [] \<and> v ! i \<noteq> [] \<and> r' ! i = butlast (r ! i) @ [last (v ! i)]" .
  have "length (r' ! i) = length (r ! i)" if "i < length r" for i
    using row[OF that] by (cases "r ! i" rule: rev_cases) simp_all
  moreover have "length r' = length r" using l by (simp add: r')
  ultimately show "shape r' = shape r" by (simp add: shape_eq_iff)
qed

lemma crop_last_row:
  assumes "crop_last opts" and "crop_reference state_values opts r1 = Inr r2"
    and "i < length state_values"
  shows "state_values ! i \<noteq> []" and "r2 ! i \<noteq> []" and "last (r2 ! i) = last (state_values ! i)"
proof -
  from assms(1,2) have s: "set_last_column r1 state_values = Inr r2"
    by (simp add: crop_reference_def)
  from set_last_column_Inr(1)[OF s] assms(3) have i: "i < length r1" by simp
  from set_last_column_Inr(3)[OF s i]
  show "state_values ! i \<noteq> []" "r2 ! i \<noteq> []" "last (r2 ! i) = last (state_values ! i)"
    by simp_all
qed

lemma reference_state_values_Inr:
  assumes "reference_state_values h state_values rewards opts = Inr R"
  obtains r0 r1 r2 where
    "n_step_reference h state_values rewards opts = Inr r0"
    "force_after_end h rewards opts r0 = Inr r1"
    "crop_reference state_values opts r1 = Inr r2"
    "R = as_tensor r2"
  using assms unfolding reference_state_values_def
  by (auto simp: bind_Inr_iff)


text \<open>Claim C5. With \<open>crop_last\<close>, the reference value that enters the loss equals, at
  the last tick of every row, the predicted state value of that tick, and the squared
  error of line 127 is \<open>0\<close> there.\<close>

theorem crop_last_value_error_zero:
  assumes "crop_last opts"
    and "reference_state_values h state_values rewards opts = Inr reference"
    and "V_err_elwise reference (as_tensor state_values) = Inr V_err"
    and "i < length state_values"
  shows "last (reference ! i) = Fin (last (state_values ! i)) \<and> last (V_err ! i) = 0"
proof -
  from assms(2) obtain r0 r1 r2 where
    "n_step_reference h state_values rewards opts = Inr r0" and
    "force_after_end h rewards opts r0 = Inr r1" and
    r2: "crop_reference state_values opts r1 = Inr r2" and R: "reference = as_tensor r2"
    by (rule reference_state_values_Inr)
  note c = crop_last_row[OF assms(1) r2 assms(4)]
  note E = elemwise_Inr[OF assms(3)[unfolded V_err_elwise_def]]
  from E(1) have s2: "shape r2 = shape state_values"
    by (simp add: R shape_as_tensor)
  then have i2: "i < length r2" using assms(4) by (simp add: shape_eq_iff)
  have ref: "last (reference ! i) = Fin (last (state_values ! i))"
    unfolding R using as_tensor_last[OF i2 c(2)] c(3) by simp
  let ?t = "length (state_values ! i) - 1"
  have t: "?t < length (state_values ! i)" using c(1) by simp
  have sV: "shape V_err = shape state_values"
    using E(2) s2 by (simp add: R shape_as_tensor)
  have iR: "i < length reference" "?t < length (reference ! i)"
    using i2 t s2 by (simp_all add: R shape_eq_iff)
  have "last (V_err ! i) = V_err ! i ! ?t"
    by (rule last_cell[OF sV assms(4) c(1)])
  also have "\<dots> = squared_error (reference ! i ! ?t) (as_tensor state_values ! i ! ?t)"
    by (rule E(3)[OF iR])
  also have "reference ! i ! ?t = Fin (r2 ! i ! ?t)"
    unfolding R using i2 t s2 by (simp add: as_tensor_nth shape_eq_iff)
  also have "r2 ! i ! ?t = state_values ! i ! ?t"
    using c(3) last_cell[OF s2 assms(4) c(1)] last_cell[OF refl assms(4) c(1)] by simp
  also have "as_tensor state_values ! i ! ?t = Fin (state_values ! i ! ?t)"
    using assms(4) t by (simp add: as_tensor_nth)
  finally have "last (V_err ! i) = 0" by simp
  with ref show ?thesis ..
qed

theorem crop_last_value_error_zero_witness:
  "crop_last (default_options\<lparr>gamma_or_gammas := Gamma (1 / 2)\<rparr>)
   \<and> reference_state_values spec_helpers [[3, 4]] [[1, 1]]
       (default_options\<lparr>gamma_or_gammas := Gamma (1 / 2)\<rparr>) = Inr [[Fin (3 / 2), Fin 4]]
   \<and> V_err_elwise [[Fin (3 / 2), Fin 4]] (as_tensor [[3, 4]]) = Inr [[Fin (9 / 4), Fin 0]]
   \<and> last ([[Fin (3 / 2), Fin 4]] ! 0) = Fin (last ([[3, 4]] ! 0))
   \<and> last ([[Fin (9 / 4), Fin 0]] ! 0) = 0"
proof -
  let ?o = "default_options\<lparr>gamma_or_gammas := Gamma (1 / 2)\<rparr>"
  have h1: "crop_last ?o" by (simp add: default_options_def)
  have h2: "reference_state_values spec_helpers [[3, 4]] [[1, 1]] ?o = Inr [[Fin (3 / 2), Fin 4]]"
    by code_simp
  have h3: "V_err_elwise [[Fin (3 / 2), Fin 4]] (as_tensor [[3, 4]]) = Inr [[Fin (9 / 4), Fin 0]]"
    by (simp add: V_err_elwise_def elemwise_def shape_def as_tensor_def squared_error_def
        minus_fval_def overflow_def max_float_def)
  from crop_last_value_error_zero[OF h1 h2 h3, of 0]
  show ?thesis using h1 h2 h3 by simp
qed


text \<open>Claim C10. The overwrite of \<open>crop_last\<close> comes after the forced values of lines 82
  to 96: with a liveness mask, \<open>force_values_after_end\<close> and \<open>crop_last\<close>, the reference
  value that enters the loss is, at the last tick of every row, the predicted state
  value (whatever lines 82 to 96 stored there), and at the earlier ticks the value that
  lines 82 to 96 left.\<close>

theorem crop_last_after_terminal_override:
  assumes "is_alive opts = Mask alive" and "force_values_after_end opts" and "crop_last opts"
    and "n_step_reference h state_values rewards opts = Inr r0"
    and "force_after_end h rewards opts r0 = Inr forced"
    and "reference_state_values h state_values rewards opts = Inr reference"
    and "i < length state_values"
  shows "last (reference ! i) = Fin (last (state_values ! i))
       \<and> butlast (reference ! i) = map Fin (butlast (forced ! i))"
proof -
  from assms(6) obtain r0' r1 r2 where
    r0': "n_step_reference h state_values rewards opts = Inr r0'" and
    r1: "force_after_end h rewards opts r0' = Inr r1" and
    r2: "crop_reference state_values opts r1 = Inr r2" and R: "reference = as_tensor r2"
    by (rule reference_state_values_Inr)
  from r0' assms(4) have "r0' = r0" by simp
  with r1 assms(5) have f: "r1 = forced" by simp
  from assms(3) r2 have s: "set_last_column forced state_values = Inr r2"
    by (simp add: crop_reference_def f)
  from set_last_column_Inr(1)[OF s] assms(7) have i: "i < length forced" by simp
  note row = set_last_column_Inr(3)[OF s i]
  from set_last_column_Inr(2)[OF s] i have i2: "i < length r2" by (simp add: shape_eq_iff)
  from row have ne: "r2 ! i \<noteq> []" by simp
  have "last (reference ! i) = Fin (last (state_values ! i))"
    unfolding R using as_tensor_last[OF i2 ne] row by simp
  moreover have "butlast (reference ! i) = map Fin (butlast (forced ! i))"
    unfolding R using i2 row by (simp add: as_tensor_def map_butlast)
  ultimately show ?thesis ..
qed

theorem crop_last_after_terminal_override_witness:
  "n_step_reference spec_helpers [[3, 7]] [[1, 5]]
       (default_options\<lparr>is_alive := Mask [[1, 1]], gamma_or_gammas := Gamma (1 / 2)\<rparr>)
     = Inr [[7 / 2, 5]]
   \<and> force_after_end spec_helpers [[1, 5]]
       (default_options\<lparr>is_alive := Mask [[1, 1]], gamma_or_gammas := Gamma (1 / 2)\<rparr>)
       [[7 / 2, 5]] = Inr [[7 / 2, 5]]
   \<and> reference_state_values spec_helpers [[3, 7]] [[1, 5]]
       (default_options\<lparr>is_alive := Mask [[1, 1]], gamma_or_gammas := Gamma (1 / 2)\<rparr>)
     = Inr [[Fin (7 / 2), Fin 7]]
   \<and> last ([[Fin (7 / 2), Fin 7]] ! 0) = Fin (last ([[3, 7]] ! 0))
   \<and> butlast ([[Fin (7 / 2), Fin 7]] ! 0) = map Fin (butlast ([[7 / 2, 5]] ! 0))"
proof -
  let ?o = "default_options\<lparr>is_alive := Mask [[1, 1]], gamma_or_gammas := Gamma (1 / 2)\<rparr>"
  have h1: "is_alive ?o = Mask [[1, 1]]" by simp
  have h2: "force_values_after_end ?o" by (simp add: default_options_def)
  have h3: "crop_last ?o" by (simp add: default_options_def)
  have h4: "n_step_reference spec_helpers [[3, 7]] [[1, 5]] ?o = Inr [[7 / 2, 5]]" by code_simp
  have h5: "force_after_end spec_helpers [[1, 5]] ?o [[7 / 2, 5]] = Inr [[7 / 2, 5]]" by code_simp
  have h6: "reference_state_values spec_helpers [[3, 7]] [[1, 5]] ?o = Inr [[Fin (7 / 2), Fin 7]]"
    by code_simp
  from crop_last_after_terminal_override[OF h1 h2 h3 h4 h5 h6, of 0]
  show ?thesis using h4 h5 h6 by simp
qed


subsection \<open>9. The loss of one cell\<close>

lemma shape_log_probas [simp]: "shape (log_probas opts p) = shape p"
  by (simp add: log_probas_def shape_def comp_def)

lemma log_probas_nth:
  "i < length p \<Longrightarrow> t < length (p ! i) \<Longrightarrow>
   log_probas opts (as_tensor p) ! i ! t = log_proba (min_proba opts) (Fin (p ! i ! t))"
  by (simp add: log_probas_def as_tensor_def)

lemma length_log_probas [simp]: "length (log_probas opts p) = length p"
  by (simp add: log_probas_def)

lemma length_log_probas_nth [simp]:
  "i < length p \<Longrightarrow> length (log_probas opts p ! i) = length (p ! i)"
  by (simp add: log_probas_def)

lemma objective_cells:
  assumes "get_elementwise_objective h policy state_values actions rewards opts = Inr loss"
  obtains r0 r1 r2 P where
    "n_step_reference h state_values rewards opts = Inr r0"
    "force_after_end h rewards opts r0 = Inr r1"
    "crop_reference state_values opts r1 = Inr r2"
    "get_action_Qvalues h policy actions = Inr P"
    "shape r2 = shape state_values" "shape P = shape state_values"
    "shape (alive_mask opts actions) = shape state_values"
    "shape loss = shape state_values"
    "\<And>i t. i < length state_values \<Longrightarrow> t < length (state_values ! i) \<Longrightarrow>
       loss ! i ! t = cell_loss (min_proba opts) (P ! i ! t) (r2 ! i ! t)
                        (state_values ! i ! t) (alive_mask opts actions ! i ! t)"
proof -
  let ?V = "as_tensor state_values"
  let ?A = "as_tensor (alive_mask opts actions)"
  from assms obtain r0 r1 P r2 pl ve total where
    r0: "n_step_reference h state_values rewards opts = Inr r0" and
    r1: "force_after_end h rewards opts r0 = Inr r1" and
    P: "get_action_Qvalues h policy actions = Inr P" and
    r2: "crop_reference state_values opts r1 = Inr r2" and
    pl: "policy_loss_elwise (log_probas opts (as_tensor P)) (as_tensor r2) ?V = Inr pl" and
    ve: "V_err_elwise (as_tensor r2) ?V = Inr ve" and
    total: "elemwise (\<lambda>a b. a + b) pl ve = Inr total" and
    loss: "elemwise (\<lambda>l a. l * a) total ?A = Inr loss"
    unfolding get_elementwise_objective_def by (auto simp: bind_Inr_iff Let_def)
  from pl obtain adv where
    adv: "elemwise (\<lambda>r v. r - v) (as_tensor r2) ?V = Inr adv" and
    pl': "elemwise (\<lambda>l a. - l * a) (log_probas opts (as_tensor P)) adv = Inr pl"
    by (auto simp: policy_loss_elwise_def bind_Inr_iff)
  note A = elemwise_Inr[OF adv] and L = elemwise_Inr[OF pl']
    and E = elemwise_Inr[OF ve[unfolded V_err_elwise_def]]
    and T = elemwise_Inr[OF total] and M = elemwise_Inr[OF loss]
  have s2: "shape r2 = shape state_values"
    using A(1) by (simp add: shape_as_tensor)
  have sP: "shape P = shape state_values"
    using L(1) A(2) s2 by (simp add: shape_as_tensor)
  have spl: "shape pl = shape state_values"
    using L(2) sP by (simp add: shape_as_tensor)
  have sadv: "shape adv = shape state_values"
    using A(2) s2 by (simp add: shape_as_tensor)
  have stot: "shape total = shape state_values"
    using T(2) spl by simp
  have sA: "shape (alive_mask opts actions) = shape state_values"
    using M(1) stot by (simp add: shape_as_tensor)
  have sl: "shape loss = shape state_values"
    using M(2) stot by simp
  have cell: "loss ! i ! t = cell_loss (min_proba opts) (P ! i ! t) (r2 ! i ! t)
                        (state_values ! i ! t) (alive_mask opts actions ! i ! t)"
    if i: "i < length state_values" and t: "t < length (state_values ! i)" for i t
  proof -
    have b: "\<And>m. shape m = shape state_values \<Longrightarrow> i < length m \<and> t < length (m ! i)"
      using i t by (auto simp: shape_eq_iff)
    have bt: "i < length (as_tensor m) \<and> t < length (as_tensor m ! i)"
      if "shape m = shape state_values" for m
      using b[OF that] by simp
    have 1: "loss ! i ! t = total ! i ! t * Fin (alive_mask opts actions ! i ! t)"
      using M(3)[of i t] b[OF stot] b[OF sA] by (simp add: as_tensor_nth)
    have 2: "total ! i ! t = pl ! i ! t + ve ! i ! t"
      using T(3)[of i t] b[OF spl] by simp
    have 3: "ve ! i ! t = squared_error (Fin (r2 ! i ! t)) (Fin (state_values ! i ! t))"
      using E(3)[of i t] bt[OF s2] b[OF s2] i t by (simp add: as_tensor_nth)
    have 4: "adv ! i ! t = Fin (r2 ! i ! t) - Fin (state_values ! i ! t)"
      using A(3)[of i t] bt[OF s2] b[OF s2] i t by (simp add: as_tensor_nth)
    have 5: "pl ! i ! t = - log_proba (min_proba opts) (Fin (P ! i ! t)) * adv ! i ! t"
      using L(3)[of i t] b[OF sP] by (simp add: log_probas_nth)
    show ?thesis unfolding cell_loss_def 1 2 3 4 5 ..
  qed
  from that[OF r0 r1 r2 P s2 sP sA sl cell] show thesis .
qed

lemma objective_ok:
  assumes "n_step_reference h state_values rewards opts = Inr r0"
    "force_after_end h rewards opts r0 = Inr r1"
    "crop_reference state_values opts r1 = Inr r2"
    "get_action_Qvalues h policy actions = Inr P"
    "shape r2 = shape state_values" "shape P = shape state_values"
    "shape (alive_mask opts actions) = shape state_values"
  shows "\<exists>loss. get_elementwise_objective h policy state_values actions rewards opts = Inr loss"
proof -
  let ?V = "as_tensor state_values"
  obtain adv where adv: "elemwise (\<lambda>r v. r - v) (as_tensor r2) ?V = Inr adv"
    using elemwise_ok[of "as_tensor r2" ?V] assms(5) by (auto simp: shape_as_tensor)
  obtain pl where pl: "elemwise (\<lambda>l a. - l * a) (log_probas opts (as_tensor P)) adv = Inr pl"
    using elemwise_ok[of "log_probas opts (as_tensor P)" adv] elemwise_Inr(2)[OF adv] assms(5,6)
    by (auto simp: shape_as_tensor)
  obtain ve where ve: "elemwise squared_error (as_tensor r2) ?V = Inr ve"
    using elemwise_ok[of "as_tensor r2" ?V] assms(5) by (auto simp: shape_as_tensor)
  obtain total where total: "elemwise (\<lambda>a b. a + b) pl ve = Inr total"
    using elemwise_ok[of pl ve] elemwise_Inr(2)[OF pl] elemwise_Inr(2)[OF ve] assms(5,6)
    by (auto simp: shape_as_tensor)
  obtain loss where loss: "elemwise (\<lambda>l a. l * a) total (as_tensor (alive_mask opts actions)) = Inr loss"
    using elemwise_ok[of total "as_tensor (alive_mask opts actions)"] elemwise_Inr(2)[OF total]
      elemwise_Inr(2)[OF pl] assms(6,7)
    by (auto simp: shape_as_tensor)
  show ?thesis
    unfolding get_elementwise_objective_def
    by (simp add: bind_def assms(1-4) policy_loss_elwise_def V_err_elwise_def adv pl ve total loss)
qed

lemma objective_eval:
  assumes "n_step_reference h state_values rewards opts = Inr r0"
    "force_after_end h rewards opts r0 = Inr r1"
    "get_action_Qvalues h policy actions = Inr P"
    "crop_reference state_values opts r1 = Inr r2"
  shows "get_elementwise_objective h policy state_values actions rewards opts =
     bind (policy_loss_elwise (log_probas opts (as_tensor P)) (as_tensor r2) (as_tensor state_values))
       (\<lambda>policy_loss.
     bind (V_err_elwise (as_tensor r2) (as_tensor state_values)) (\<lambda>V_err.
     bind (elemwise (\<lambda>a b. a + b) policy_loss V_err) (\<lambda>total.
       elemwise (\<lambda>l a. l * a) total (as_tensor (alive_mask opts actions)))))"
  by (simp add: get_elementwise_objective_def bind_def assms Let_def)

lemmas eval_defs = policy_loss_elwise_def V_err_elwise_def elemwise_def shape_def as_tensor_def
  log_probas_def log_proba_def T_switch_def T_eq_def squared_error_def bind_def alive_mask_def
  default_options_def minus_fval_def overflow_def max_float_def

lemma log_proba_finite_iff:
  "is_finite (log_proba m (Fin p)) \<longleftrightarrow> 0 < p \<or> (p = 0 \<and> 0 < m)"
  by (auto simp: log_proba_def T_switch_def T_eq_def Let_def)

lemma log_proba_zero: "log_proba m (Fin 0) = T_log (Fin 0 + Fin m)"
  by (simp add: log_proba_def T_switch_def T_eq_def)

lemma log_proba_nonzero: "p \<noteq> 0 \<Longrightarrow> log_proba m (Fin p) = log_proba 0 (Fin p)"
  by (simp add: log_proba_def T_switch_def T_eq_def)

lemma cell_loss_no_advantage:
  "is_finite (log_proba m (Fin p)) \<Longrightarrow> cell_loss m p v v a = Fin 0"
  by (auto simp: cell_loss_def is_finite_iff)

lemma ln_half_bounds: "- 1 < ln (1 / 2 :: real)" "ln (1 / 2 :: real) < 0"
  using ln_2_less_1 by (simp_all add: ln_div)

lemma n_step_reference_min_proba [simp]:
  "n_step_reference h v r (opts\<lparr>min_proba := m\<rparr>) = n_step_reference h v r opts"
  by (simp add: n_step_reference_def)

lemma force_after_end_min_proba [simp]:
  "force_after_end h r (opts\<lparr>min_proba := m\<rparr>) x = force_after_end h r opts x"
  by (simp add: force_after_end_def cong: alive.case_cong after_end.case_cong if_cong)

lemma crop_reference_min_proba [simp]:
  "crop_reference v (opts\<lparr>min_proba := m\<rparr>) x = crop_reference v opts x"
  by (simp add: crop_reference_def)

lemma alive_mask_min_proba [simp]:
  "alive_mask (opts\<lparr>min_proba := m\<rparr>) a = alive_mask opts a"
  by (simp add: alive_mask_def split: alive.split)


lemma objective_is_masked:
  "get_elementwise_objective h policy state_values actions rewards opts =
     bind (unmasked_loss h policy state_values actions rewards opts) (\<lambda>total.
       elemwise (\<lambda>l a. l * a) total (as_tensor (alive_mask opts actions)))"
  by (simp add: get_elementwise_objective_def unmasked_loss_def bind_def Let_def
      split: sum.splits)

lemma unmasked_eval:
  assumes "n_step_reference h state_values rewards opts = Inr r0"
    "force_after_end h rewards opts r0 = Inr r1"
    "get_action_Qvalues h policy actions = Inr P"
    "crop_reference state_values opts r1 = Inr r2"
  shows "unmasked_loss h policy state_values actions rewards opts =
     bind (policy_loss_elwise (log_probas opts (as_tensor P)) (as_tensor r2) (as_tensor state_values))
       (\<lambda>policy_loss.
     bind (V_err_elwise (as_tensor r2) (as_tensor state_values)) (\<lambda>V_err.
       elemwise (\<lambda>a b. a + b) policy_loss V_err))"
  by (simp add: unmasked_loss_def bind_def assms Let_def)

text \<open>Claim C4, as the code has it. At a cell whose liveness flag is \<open>0\<close> the returned loss
  is exactly \<open>0\<close>, whatever the other inputs and flags are, provided the unmasked loss of
  the cell (policy loss plus value loss, before line 129 multiplies by the mask) is
  finite. Where the unmasked loss is an infinity or not a number (a logarithm of \<open>0\<close>
  with \<open>min_proba = 0\<close>, or an overflow) the returned loss is not a number.\<close>

theorem dead_cells_have_zero_loss:
  assumes "get_elementwise_objective h policy state_values actions rewards opts = Inr loss"
    and "unmasked_loss h policy state_values actions rewards opts = Inr unmasked"
    and "is_alive opts = Mask alive"
    and "i < length alive" and "t < length (alive ! i)" and "alive ! i ! t = 0"
  shows "loss ! i ! t = (if is_finite (unmasked ! i ! t) then 0 else NaN)"
proof -
  from assms(3) have A: "alive_mask opts actions = alive" by (simp add: alive_mask_def)
  from assms(1,2) have m: "elemwise (\<lambda>l a. l * a) unmasked (as_tensor alive) = Inr loss"
    by (simp add: objective_is_masked bind_def A)
  note M = elemwise_Inr[OF m]
  from M(1) assms(4,5) have b: "i < length unmasked" "t < length (unmasked ! i)"
    by (simp_all add: shape_as_tensor shape_eq_iff)
  have "loss ! i ! t = unmasked ! i ! t * as_tensor alive ! i ! t"
    by (rule M(3)[OF b])
  also have "as_tensor alive ! i ! t = Fin 0"
    using assms(4,5,6) by (simp add: as_tensor_nth)
  finally show ?thesis by (simp add: times_zero)
qed

theorem dead_cells_have_zero_loss_witness:
  "get_elementwise_objective spec_helpers [[[1 / 2, 1 / 2], [0, 1]]] [[3, 4]] [[0, 1]] [[1, 1]]
     (default_options\<lparr>is_alive := Mask [[1, 0]]\<rparr>)
     = Inr [[Fin (4 + 2 * ln (1 / 2)), Fin 0]]
   \<and> unmasked_loss spec_helpers [[[1 / 2, 1 / 2], [0, 1]]] [[3, 4]] [[0, 1]] [[1, 1]]
     (default_options\<lparr>is_alive := Mask [[1, 0]]\<rparr>)
     = Inr [[Fin (4 + 2 * ln (1 / 2)), Fin 0]]
   \<and> is_alive (default_options\<lparr>is_alive := Mask [[1, 0]]\<rparr>) = Mask [[1, 0]]
   \<and> ([[1, 0]] :: matrix) ! 0 ! 1 = 0
   \<and> is_finite ([[Fin (4 + 2 * ln (1 / 2)), Fin 0]] ! 0 ! 1)
   \<and> [[Fin (4 + 2 * ln (1 / 2)), Fin 0]] ! 0 ! 1 = 0"
proof -
  let ?o = "default_options\<lparr>is_alive := Mask [[1, 0]]\<rparr>"
  have r0: "n_step_reference spec_helpers [[3, 4]] [[1, 1]] ?o = Inr [[1, 1]]" by code_simp
  have r1: "force_after_end spec_helpers [[1, 1]] ?o [[1, 1]] = Inr [[1, 1]]" by code_simp
  have P: "get_action_Qvalues spec_helpers [[[1 / 2, 1 / 2], [0, 1]]] [[0, 1]] = Inr [[1 / 2, 1]]"
    by code_simp
  have r2: "crop_reference [[3, 4]] ?o [[1, 1]] = Inr [[1, 4]]" by code_simp
  have h1: "get_elementwise_objective spec_helpers [[[1 / 2, 1 / 2], [0, 1]]] [[3, 4]] [[0, 1]]
      [[1, 1]] ?o = Inr [[Fin (4 + 2 * ln (1 / 2)), Fin 0]]"
    unfolding objective_eval[OF r0 r1 P r2] using ln_half_bounds
    by (simp add: eval_defs del: ln_less_zero_iff ln_le_zero_iff)
  have h2: "unmasked_loss spec_helpers [[[1 / 2, 1 / 2], [0, 1]]] [[3, 4]] [[0, 1]]
      [[1, 1]] ?o = Inr [[Fin (4 + 2 * ln (1 / 2)), Fin 0]]"
    unfolding unmasked_eval[OF r0 r1 P r2] using ln_half_bounds
    by (simp add: eval_defs del: ln_less_zero_iff ln_le_zero_iff)
  have h3: "is_alive ?o = Mask [[1, 0]]" by simp
  from dead_cells_have_zero_loss[OF h1 h2 h3, of 0 1]
  show ?thesis using h1 h2 h3 by simp
qed

text \<open>An overflow has the same effect as a logarithm of \<open>0\<close>: with a state value of
  \<open>10^200\<close> and a reward of \<open>-10^200\<close> the squared error is beyond the largest finite
  number, and the loss of the dead cell is not a number although the selected
  probability is \<open>1\<close>.\<close>

lemma dead_cell_overflow:
  "unmasked_loss spec_helpers [[[1]]] [[10 ^ 200]] [[0]] [[- (10 ^ 200)]]
     (default_options\<lparr>is_alive := Mask [[0]], crop_last := False\<rparr>) = Inr [[PInf]]
   \<and> get_elementwise_objective spec_helpers [[[1]]] [[10 ^ 200]] [[0]] [[- (10 ^ 200)]]
     (default_options\<lparr>is_alive := Mask [[0]], crop_last := False\<rparr>) = Inr [[NaN]]"
proof -
  let ?o = "default_options\<lparr>is_alive := Mask [[0]], crop_last := False\<rparr>"
  have r0: "n_step_reference spec_helpers [[10 ^ 200]] [[- (10 ^ 200)]] ?o = Inr [[- (10 ^ 200)]]"
    by code_simp
  have r1: "force_after_end spec_helpers [[- (10 ^ 200)]] ?o [[- (10 ^ 200)]]
              = Inr [[- (10 ^ 200)]]"
    by code_simp
  have P: "get_action_Qvalues spec_helpers [[[1]]] [[0]] = Inr [[1]]" by code_simp
  have r2: "crop_reference [[10 ^ 200]] ?o [[- (10 ^ 200)]] = Inr [[- (10 ^ 200)]]"
    by code_simp
  have u: "unmasked_loss spec_helpers [[[1]]] [[10 ^ 200]] [[0]] [[- (10 ^ 200)]] ?o
             = Inr [[PInf]]"
    unfolding unmasked_eval[OF r0 r1 P r2] by (simp add: eval_defs)
  then show ?thesis
    by (simp add: objective_is_masked bind_def alive_mask_def elemwise_def shape_def
        as_tensor_def)
qed

text \<open>Claim C4 as stated fails: with \<open>min_proba = 0\<close> and a selected probability of \<open>0\<close>
  the logarithm is minus infinity, the unmasked loss is not finite, and the product with
  the liveness flag \<open>0\<close> is not a number.\<close>

theorem dead_cell_counterexample:
  "is_alive (default_options\<lparr>is_alive := Mask [[0]], min_proba := 0\<rparr>) = Mask [[0]]
   \<and> ([[0]] :: matrix) ! 0 ! 0 = 0
   \<and> get_elementwise_objective spec_helpers [[[0, 1]]] [[0]] [[0]] [[1]]
       (default_options\<lparr>is_alive := Mask [[0]], min_proba := 0\<rparr>) = Inr [[NaN]]
   \<and> [[NaN]] ! 0 ! 0 \<noteq> (0 :: fval)"
proof -
  let ?o = "default_options\<lparr>is_alive := Mask [[0]], min_proba := 0\<rparr>"
  have r0: "n_step_reference spec_helpers [[0]] [[1]] ?o = Inr [[1]]" by code_simp
  have r1: "force_after_end spec_helpers [[1]] ?o [[1]] = Inr [[1]]" by code_simp
  have P: "get_action_Qvalues spec_helpers [[[0, 1]]] [[0]] = Inr [[0]]" by code_simp
  have r2: "crop_reference [[0]] ?o [[1]] = Inr [[0]]" by code_simp
  have "get_elementwise_objective spec_helpers [[[0, 1]]] [[0]] [[0]] [[1]] ?o = Inr [[NaN]]"
    unfolding objective_eval[OF r0 r1 P r2] using ln_half_bounds
    by (simp add: eval_defs del: ln_less_zero_iff ln_le_zero_iff)
  then show ?thesis by simp
qed


text \<open>Claim C6. Where the selected probability is \<open>0\<close>, the logarithm that enters the
  policy loss is \<open>log(0 + min_proba)\<close>, which is finite when \<open>min_proba\<close> is positive.
  Where the selected probability is not \<open>0\<close>, the loss of the cell is the one the
  function returns with \<open>min_proba = 0\<close>.\<close>

theorem min_proba_guards_zero_only:
  assumes "get_elementwise_objective h policy state_values actions rewards opts = Inr loss"
    and "get_action_Qvalues h policy actions = Inr P"
    and "i < length state_values" and "t < length (state_values ! i)"
  shows "(P ! i ! t = 0 \<longrightarrow>
            log_probas opts (as_tensor P) ! i ! t = T_log (Fin 0 + Fin (min_proba opts))
          \<and> (0 < min_proba opts \<longrightarrow> is_finite (log_probas opts (as_tensor P) ! i ! t)))
       \<and> (P ! i ! t \<noteq> 0 \<longrightarrow>
            (\<exists>loss0. get_elementwise_objective h policy state_values actions rewards
                        (opts\<lparr>min_proba := 0\<rparr>) = Inr loss0
                   \<and> loss ! i ! t = loss0 ! i ! t))"
proof -
  let ?o = "opts\<lparr>min_proba := 0\<rparr>"
  from assms(1) obtain r0 r1 r2 P' where
    r0: "n_step_reference h state_values rewards opts = Inr r0" and
    r1: "force_after_end h rewards opts r0 = Inr r1" and
    r2: "crop_reference state_values opts r1 = Inr r2" and
    P': "get_action_Qvalues h policy actions = Inr P'" and
    s2: "shape r2 = shape state_values" and sP: "shape P' = shape state_values" and
    sA: "shape (alive_mask opts actions) = shape state_values" and
    "shape loss = shape state_values" and
    cell: "\<And>i t. i < length state_values \<Longrightarrow> t < length (state_values ! i) \<Longrightarrow>
       loss ! i ! t = cell_loss (min_proba opts) (P' ! i ! t) (r2 ! i ! t)
                        (state_values ! i ! t) (alive_mask opts actions ! i ! t)"
    by (rule objective_cells) blast
  from P' assms(2) have P: "P' = P" by simp
  from sP P assms(3,4) have b: "i < length P" "t < length (P ! i)"
    by (simp_all add: shape_eq_iff)
  have lp: "log_probas opts (as_tensor P) ! i ! t = log_proba (min_proba opts) (Fin (P ! i ! t))"
    by (rule log_probas_nth[OF b])
  have zero: "log_probas opts (as_tensor P) ! i ! t = T_log (Fin 0 + Fin (min_proba opts))
          \<and> (0 < min_proba opts \<longrightarrow> is_finite (log_probas opts (as_tensor P) ! i ! t))"
    if "P ! i ! t = 0"
    using that by (simp add: lp log_proba_finite_iff) (simp add: log_proba_zero)
  have nonzero: "\<exists>loss0. get_elementwise_objective h policy state_values actions rewards ?o = Inr loss0
                   \<and> loss ! i ! t = loss0 ! i ! t"
    if nz: "P ! i ! t \<noteq> 0"
  proof -
    from objective_ok[of h state_values rewards ?o r0 r1 r2 policy actions P']
    obtain loss0 where
      l0: "get_elementwise_objective h policy state_values actions rewards ?o = Inr loss0"
      using r0 r1 r2 P' s2 sP sA by auto
    from l0 obtain q0 q1 q2 Q where
      q0: "n_step_reference h state_values rewards ?o = Inr q0" and
      q1: "force_after_end h rewards ?o q0 = Inr q1" and
      q2: "crop_reference state_values ?o q1 = Inr q2" and
      Q: "get_action_Qvalues h policy actions = Inr Q" and
      "shape q2 = shape state_values" "shape Q = shape state_values"
      "shape (alive_mask ?o actions) = shape state_values"
      "shape loss0 = shape state_values" and
      cell0: "\<And>i t. i < length state_values \<Longrightarrow> t < length (state_values ! i) \<Longrightarrow>
         loss0 ! i ! t = cell_loss (min_proba ?o) (Q ! i ! t) (q2 ! i ! t)
                          (state_values ! i ! t) (alive_mask ?o actions ! i ! t)"
      by (rule objective_cells) blast
    from q0 r0 have "q0 = r0" by simp
    with q1 r1 have "q1 = r1" by simp
    with q2 r2 have e2: "q2 = r2" by simp
    from Q assms(2) have eQ: "Q = P" by simp
    have "loss ! i ! t = loss0 ! i ! t"
      using cell[OF assms(3,4)] cell0[OF assms(3,4)] log_proba_nonzero[OF nz, of "min_proba opts"]
      by (simp add: e2 eQ P cell_loss_def)
    with l0 show ?thesis by blast
  qed
  from zero nonzero show ?thesis by blast
qed

theorem min_proba_guards_zero_only_witness:
  "get_elementwise_objective spec_helpers [[[1 / 2, 1 / 2], [0, 1]]] [[3, 4]] [[0, 0]] [[1, 1]]
       (default_options\<lparr>gamma_or_gammas := Gamma (1 / 2)\<rparr>)
     = Inr [[Fin (9 / 4 + 3 / 2 * ln (1 / 2)), Fin 0]]
   \<and> get_action_Qvalues spec_helpers [[[1 / 2, 1 / 2], [0, 1]]] [[0, 0]] = Inr [[1 / 2, 0]]
   \<and> log_probas (default_options\<lparr>gamma_or_gammas := Gamma (1 / 2)\<rparr>) (as_tensor [[1 / 2, 0]]) ! 0 ! 1
       = T_log (Fin 0 + Fin (1 / 10 ^ 30))
   \<and> is_finite (log_probas (default_options\<lparr>gamma_or_gammas := Gamma (1 / 2)\<rparr>)
                  (as_tensor [[1 / 2, 0]]) ! 0 ! 1)
   \<and> (\<exists>loss0. get_elementwise_objective spec_helpers [[[1 / 2, 1 / 2], [0, 1]]] [[3, 4]] [[0, 0]]
                 [[1, 1]] (default_options\<lparr>gamma_or_gammas := Gamma (1 / 2), min_proba := 0\<rparr>)
               = Inr loss0
            \<and> [[Fin (9 / 4 + 3 / 2 * ln (1 / 2)), Fin 0]] ! 0 ! 0 = loss0 ! 0 ! 0)"
proof -
  let ?o = "default_options\<lparr>gamma_or_gammas := Gamma (1 / 2)\<rparr>"
  have r0: "n_step_reference spec_helpers [[3, 4]] [[1, 1]] ?o = Inr [[3 / 2, 1]]" by code_simp
  have r1: "force_after_end spec_helpers [[1, 1]] ?o [[3 / 2, 1]] = Inr [[3 / 2, 1]]" by code_simp
  have P: "get_action_Qvalues spec_helpers [[[1 / 2, 1 / 2], [0, 1]]] [[0, 0]] = Inr [[1 / 2, 0]]"
    by code_simp
  have r2: "crop_reference [[3, 4]] ?o [[3 / 2, 1]] = Inr [[3 / 2, 4]]" by code_simp
  have h: "get_elementwise_objective spec_helpers [[[1 / 2, 1 / 2], [0, 1]]] [[3, 4]] [[0, 0]]
      [[1, 1]] ?o = Inr [[Fin (9 / 4 + 3 / 2 * ln (1 / 2)), Fin 0]]"
    unfolding objective_eval[OF r0 r1 P r2] using ln_half_bounds
    by (simp add: eval_defs del: ln_less_zero_iff ln_le_zero_iff)
  have m: "min_proba ?o = 1 / 10 ^ 30" by (simp add: default_options_def)
  from min_proba_guards_zero_only[OF h P, of 0 0] min_proba_guards_zero_only[OF h P, of 0 1]
  show ?thesis using h P by (simp add: m)
qed


text \<open>Claim C9, as the code has it. With \<open>crop_last\<close> the returned loss is \<open>0\<close> at the last
  tick of every row, for every setting of the other flags, provided the logarithm of the
  selected probability is finite there: the probability is positive, or it is \<open>0\<close> and
  \<open>min_proba\<close> is positive.\<close>

theorem cropped_last_column_has_zero_loss:
  assumes "crop_last opts"
    and "get_elementwise_objective h policy state_values actions rewards opts = Inr loss"
    and "get_action_Qvalues h policy actions = Inr P"
    and "i < length state_values"
    and "0 < last (P ! i) \<or> (last (P ! i) = 0 \<and> 0 < min_proba opts)"
  shows "last (loss ! i) = 0"
proof -
  from assms(2) obtain r0 r1 r2 P' where
    "n_step_reference h state_values rewards opts = Inr r0"
    "force_after_end h rewards opts r0 = Inr r1" and
    r2: "crop_reference state_values opts r1 = Inr r2" and
    P': "get_action_Qvalues h policy actions = Inr P'" and
    s2: "shape r2 = shape state_values" and sP: "shape P' = shape state_values" and
    "shape (alive_mask opts actions) = shape state_values" and
    sl: "shape loss = shape state_values" and
    cell: "\<And>i t. i < length state_values \<Longrightarrow> t < length (state_values ! i) \<Longrightarrow>
       loss ! i ! t = cell_loss (min_proba opts) (P' ! i ! t) (r2 ! i ! t)
                        (state_values ! i ! t) (alive_mask opts actions ! i ! t)"
    by (rule objective_cells) blast
  from P' assms(3) have P: "P' = P" by simp
  note c = crop_last_row[OF assms(1) r2 assms(4)]
  let ?t = "length (state_values ! i) - 1"
  have t: "?t < length (state_values ! i)" using c(1) by simp
  have e: "last (loss ! i) = loss ! i ! ?t" "last (P ! i) = P ! i ! ?t"
    "last (r2 ! i) = r2 ! i ! ?t" "last (state_values ! i) = state_values ! i ! ?t"
    using last_cell[OF sl assms(4) c(1)] last_cell[OF sP assms(4) c(1)]
      last_cell[OF s2 assms(4) c(1)] last_cell[OF refl assms(4) c(1)] P by simp_all
  from assms(5) have "is_finite (log_proba (min_proba opts) (Fin (P ! i ! ?t)))"
    by (simp add: log_proba_finite_iff e)
  moreover have "r2 ! i ! ?t = state_values ! i ! ?t"
    using c(3) e by simp
  ultimately show ?thesis
    using cell[OF assms(4) t] by (simp add: e P cell_loss_no_advantage)
qed

theorem cropped_last_column_has_zero_loss_witness:
  "crop_last (default_options\<lparr>gamma_or_gammas := Gamma (1 / 2)\<rparr>)
   \<and> get_elementwise_objective spec_helpers [[[1 / 2, 1 / 2], [0, 1]]] [[3, 4]] [[0, 0]] [[1, 1]]
       (default_options\<lparr>gamma_or_gammas := Gamma (1 / 2)\<rparr>)
     = Inr [[Fin (9 / 4 + 3 / 2 * ln (1 / 2)), Fin 0]]
   \<and> get_action_Qvalues spec_helpers [[[1 / 2, 1 / 2], [0, 1]]] [[0, 0]] = Inr [[1 / 2, 0]]
   \<and> last ([[1 / 2, 0]] ! 0) = (0 :: real)
   \<and> 0 < min_proba (default_options\<lparr>gamma_or_gammas := Gamma (1 / 2)\<rparr>)
   \<and> last ([[Fin (9 / 4 + 3 / 2 * ln (1 / 2)), Fin 0]] ! 0) = 0"
proof -
  let ?o = "default_options\<lparr>gamma_or_gammas := Gamma (1 / 2)\<rparr>"
  have h1: "crop_last ?o" by (simp add: default_options_def)
  have r0: "n_step_reference spec_helpers [[3, 4]] [[1, 1]] ?o = Inr [[3 / 2, 1]]" by code_simp
  have r1: "force_after_end spec_helpers [[1, 1]] ?o [[3 / 2, 1]] = Inr [[3 / 2, 1]]" by code_simp
  have P: "get_action_Qvalues spec_helpers [[[1 / 2, 1 / 2], [0, 1]]] [[0, 0]] = Inr [[1 / 2, 0]]"
    by code_simp
  have r2: "crop_reference [[3, 4]] ?o [[3 / 2, 1]] = Inr [[3 / 2, 4]]" by code_simp
  have h2: "get_elementwise_objective spec_helpers [[[1 / 2, 1 / 2], [0, 1]]] [[3, 4]] [[0, 0]]
      [[1, 1]] ?o = Inr [[Fin (9 / 4 + 3 / 2 * ln (1 / 2)), Fin 0]]"
    unfolding objective_eval[OF r0 r1 P r2] using ln_half_bounds
    by (simp add: eval_defs del: ln_less_zero_iff ln_le_zero_iff)
  have h5: "0 < last (([[1 / 2, 0]] :: matrix) ! 0) \<or> (last (([[1 / 2, 0]] :: matrix) ! 0) = 0 \<and> 0 < min_proba ?o)"
    by (simp add: default_options_def)
  from cropped_last_column_has_zero_loss[OF h1 h2 P _ h5]
  show ?thesis using h1 h2 P by (simp add: default_options_def)
qed


text \<open>Claim C9 as stated fails: with \<open>min_proba = 0\<close> and a selected probability of \<open>0\<close>
  at the last tick, the policy term is infinity times \<open>0\<close>, which is not a number.\<close>

theorem cropped_last_column_counterexample:
  "crop_last (default_options\<lparr>min_proba := 0\<rparr>)
   \<and> get_elementwise_objective spec_helpers [[[0, 1]]] [[0]] [[0]] [[1]]
       (default_options\<lparr>min_proba := 0\<rparr>) = Inr [[NaN]]
   \<and> last ([[NaN]] ! 0) \<noteq> (0 :: fval)"
proof -
  let ?o = "default_options\<lparr>min_proba := 0\<rparr>"
  have r0: "n_step_reference spec_helpers [[0]] [[1]] ?o = Inr [[1]]" by code_simp
  have r1: "force_after_end spec_helpers [[1]] ?o [[1]] = Inr [[1]]" by code_simp
  have P: "get_action_Qvalues spec_helpers [[[0, 1]]] [[0]] = Inr [[0]]" by code_simp
  have r2: "crop_reference [[0]] ?o [[1]] = Inr [[0]]" by code_simp
  have "get_elementwise_objective spec_helpers [[[0, 1]]] [[0]] [[0]] [[1]] ?o = Inr [[NaN]]"
    unfolding objective_eval[OF r0 r1 P r2] using ln_half_bounds
    by (simp add: eval_defs del: ln_less_zero_iff ln_le_zero_iff)
  then show ?thesis by (simp add: default_options_def)
qed


subsection \<open>10. The return estimator of the specification\<close>




lemma backward_walk_unbounded:
  assumes "\<forall>x\<in>set xs. alive_flag x \<noteq> 0"
  shows "length (fst (backward_walk None after xs)) = length xs
       \<and> fst (snd (backward_walk None after xs))
           = (case fst (backward_walk None after xs) of [] \<Rightarrow> after | g # _ \<Rightarrow> g)
       \<and> (\<forall>t<length xs. fst (backward_walk None after xs) ! t
             = reward (xs ! t) + discount (xs ! t)
               * (if Suc t < length xs then fst (backward_walk None after xs) ! Suc t else after))"
  using assms
proof (induction xs)
  case Nil
  then show ?case by simp
next
  case (Cons x xs)
  obtain refs G k where w: "backward_walk None after xs = (refs, G, k)"
    by (cases "backward_walk None after xs") auto
  from Cons have ih: "length refs = length xs"
    "G = (case refs of [] \<Rightarrow> after | g # _ \<Rightarrow> g)"
    "\<forall>t<length xs. refs ! t = reward (xs ! t) + discount (xs ! t)
               * (if Suc t < length xs then refs ! Suc t else after)"
    and a: "alive_flag x \<noteq> 0"
    by (simp_all add: w)
  have G: "G = (if 0 < length xs then refs ! 0 else after)"
    using ih(1,2) by (cases refs) auto
  have f: "fst (backward_walk None after (x # xs)) = (reward x + discount x * G) # refs"
    by (simp add: w Let_def)
  have g: "fst (snd (backward_walk None after (x # xs))) = reward x + discount x * G"
    using a by (simp add: w Let_def)
  have c: "((reward x + discount x * G) # refs) ! t
             = reward ((x # xs) ! t) + discount ((x # xs) ! t)
               * (if Suc t < length (x # xs) then ((reward x + discount x * G) # refs) ! Suc t
                  else after)"
    if "t < length (x # xs)" for t
  proof (cases t)
    case 0
    then show ?thesis by (simp add: G)
  next
    case (Suc u)
    with that have "u < length xs" by simp
    with ih(3) show ?thesis by (simp add: Suc)
  qed
  show ?case
    unfolding f g using c ih(1) by simp
qed


lemma estimate_row_unbounded:
  assumes "length vs = length rs" and "length as = length rs" and "\<forall>a\<in>set as. a \<noteq> 0"
    and "t < length rs"
  shows "estimate_row None vs rs as gs after ! t
           = rs ! t + gs ! t * (if Suc t < length rs
                                then estimate_row None vs rs as gs after ! Suc t else after)"
proof -
  let ?xs = "ticks_of rs as gs vs after"
  have l: "length ?xs = length rs" by (simp add: ticks_of_def)
  have "\<forall>x\<in>set ?xs. alive_flag x \<noteq> 0"
    using assms(2,3) by (auto simp: ticks_of_def)
  from backward_walk_unbounded[OF this, of after] assms(4) l
  have "fst (backward_walk None after ?xs) ! t
          = reward (?xs ! t) + discount (?xs ! t)
            * (if Suc t < length ?xs then fst (backward_walk None after ?xs) ! Suc t else after)"
    by simp
  then show ?thesis
    using assms(4) by (simp add: estimate_row_def l) (simp add: ticks_of_def)
qed

text \<open>With no bound on \<open>n_steps\<close> and an agent that is always alive, every reference
  value is the reward plus the discounted reference value of the next tick, and the value
  after the end follows the last tick: the discounted return of the rest of the row.\<close>

lemma always_alive_reduction:
  assumes "spec_n_step_value_reference target rewards Always None after g = Inr reference"
    and "i < length rewards" and "t < length (rewards ! i)"
  shows "reference ! i ! t =
           rewards ! i ! t
           + (case g of Gamma c \<Rightarrow> c | Gammas m \<Rightarrow> m ! i ! t)
             * (if Suc t < length (rewards ! i) then reference ! i ! Suc t
                else (case after of Zeros \<Rightarrow> 0 | Values m \<Rightarrow> m ! i ! 0))"
proof -
  let ?A = "alive_matrix Always rewards"
  from assms(1) obtain ends where
    st: "shape target = shape rewards" and
    ends: "after_end_column after rewards = Inr ends" and
    ref: "reference = map (\<lambda>i. estimate_row None (target ! i) (rewards ! i)
                         (?A ! i) (gamma_matrix g rewards ! i) (ends ! i))
                 [0..<length rewards]"
    by (auto simp: spec_n_step_value_reference_def bind_Inr_iff split: if_splits)
  from st assms(2) have lt: "length (target ! i) = length (rewards ! i)"
    by (simp add: shape_eq_iff)
  have la: "length (?A ! i) = length (rewards ! i)" and al: "\<forall>a\<in>set (?A ! i). a \<noteq> 0"
    using assms(2) by (simp_all add: alive_matrix_def)
  have e: "ends ! i = (case after of Zeros \<Rightarrow> 0 | Values m \<Rightarrow> m ! i ! 0)"
    using ends assms(2)
    by (auto simp: after_end_column_def list_all_length hd_conv_nth split: after_end.splits if_splits)
  have gm: "gamma_matrix g rewards ! i ! t = (case g of Gamma c \<Rightarrow> c | Gammas m \<Rightarrow> m ! i ! t)"
    using assms(2,3) by (simp add: gamma_matrix_def split: gammas.splits)
  have r: "reference ! i = estimate_row None (target ! i) (rewards ! i)
          (?A ! i) (gamma_matrix g rewards ! i) (ends ! i)"
    using assms(2) by (simp add: ref)
  show ?thesis
    unfolding r using estimate_row_unbounded[OF lt la al assms(3)] by (simp add: e gm)
qed

text \<open>Claim C1. One row of three ticks, \<open>gamma = 0.9\<close>, always alive, rewards \<open>[1, 1, 1]\<close>,
  state values \<open>[0, 0, 0]\<close>, no bound on \<open>n_steps\<close>, zeros after the end: the reference
  values are \<open>[2.71, 1.9, 1]\<close>; with \<open>crop_last\<close> the last one becomes \<open>0\<close>, the
  predicted value, and the squared error at the last tick is \<open>0\<close>.\<close>

theorem concrete_scenario:
  "spec_n_step_value_reference [[0, 0, 0]] [[1, 1, 1]] Always None Zeros (Gamma (9 / 10))
     = Inr [[271 / 100, 19 / 10, 1]]
   \<and> reference_state_values spec_helpers [[0, 0, 0]] [[1, 1, 1]]
       (default_options\<lparr>gamma_or_gammas := Gamma (9 / 10), crop_last := False\<rparr>)
     = Inr [[Fin (271 / 100), Fin (19 / 10), Fin 1]]
   \<and> reference_state_values spec_helpers [[0, 0, 0]] [[1, 1, 1]]
       (default_options\<lparr>gamma_or_gammas := Gamma (9 / 10), crop_last := True\<rparr>)
     = Inr [[Fin (271 / 100), Fin (19 / 10), Fin 0]]
   \<and> V_err_elwise [[Fin (271 / 100), Fin (19 / 10), Fin 0]] (as_tensor [[0, 0, 0]])
     = Inr [[Fin (73441 / 10000), Fin (361 / 100), Fin 0]]"
proof (intro conjI)
  show "spec_n_step_value_reference [[0, 0, 0]] [[1, 1, 1]] Always None Zeros (Gamma (9 / 10))
     = Inr [[271 / 100, 19 / 10, 1]]"
    by code_simp
  show "reference_state_values spec_helpers [[0, 0, 0]] [[1, 1, 1]]
       (default_options\<lparr>gamma_or_gammas := Gamma (9 / 10), crop_last := False\<rparr>)
     = Inr [[Fin (271 / 100), Fin (19 / 10), Fin 1]]"
    by code_simp
  show "reference_state_values spec_helpers [[0, 0, 0]] [[1, 1, 1]]
       (default_options\<lparr>gamma_or_gammas := Gamma (9 / 10), crop_last := True\<rparr>)
     = Inr [[Fin (271 / 100), Fin (19 / 10), Fin 0]]"
    by code_simp
  show "V_err_elwise [[Fin (271 / 100), Fin (19 / 10), Fin 0]] (as_tensor [[0, 0, 0]])
     = Inr [[Fin (73441 / 10000), Fin (361 / 100), Fin 0]]"
    by (simp add: V_err_elwise_def elemwise_def shape_def as_tensor_def squared_error_def
        minus_fval_def overflow_def max_float_def)
qed





text \<open>Claim C8. A call with \<open>n_steps\<close> zero or negative returns no loss: it fails with
  \<open>InvalidConfiguration\<close>.\<close>

theorem nonpositive_n_steps_rejected:
  assumes "n_steps opts = Some n" and "n \<le> 0"
  shows "get_elementwise_objective spec_helpers policy state_values actions rewards opts
           = Inl InvalidConfiguration"
  using assms
  by (simp add: get_elementwise_objective_def n_step_reference_def spec_helpers_def
      spec_n_step_value_reference_def bind_def)

theorem nonpositive_n_steps_rejected_witness:
  "n_steps (default_options\<lparr>n_steps := Some 0\<rparr>) = Some 0 \<and> (0 :: int) \<le> 0
   \<and> get_elementwise_objective spec_helpers [[[1 / 2, 1 / 2]]] [[3]] [[0]] [[1]]
       (default_options\<lparr>n_steps := Some 0\<rparr>) = Inl InvalidConfiguration"
proof -
  have h1: "n_steps (default_options\<lparr>n_steps := Some 0\<rparr>) = Some 0" by simp
  have h2: "(0 :: int) \<le> 0" by simp
  from nonpositive_n_steps_rejected[OF h1 h2] show ?thesis by simp
qed

subsection \<open>11. Which gradients are blocked\<close>

lemma policy_loss_dual_eq:
  assumes "detaches cc"
  shows "policy_loss_dual cc opts (Dual l dl) (Dual r dr) (Dual x dx) =
     Dual (- l * (r - x))
          (- dl * (r - x)
           - l * ((if consider_value_reference_constant opts then 0 else dr)
                  - (if consider_predicted_value_constant opts then 0 else dx)))"
  using assms by (simp add: policy_loss_dual_def reference_dual_def observed_dual_def detaches_def)

lemma V_err_dual_eq:
  assumes "detaches cc"
  shows "V_err_dual cc opts (Dual r dr) (Dual x dx) =
     Dual ((r - x) * (r - x))
          (2 * (r - x) * ((if consider_value_reference_constant opts then 0 else dr) - dx))"
  using assms by (simp add: V_err_dual_def reference_dual_def detaches_def algebra_simps)

text \<open>Claim C7. Let \<open>consider_constant\<close> detach its argument. With
  \<open>consider_value_reference_constant\<close>, the derivative of the policy loss does not depend
  on the derivative of the reference values (it is \<open>0\<close> when only their producer is
  perturbed), while the derivative of the squared error along a perturbation \<open>dx\<close> of the
  state value \<open>x\<close> is \<open>2 (x - r) dx\<close>, which is not \<open>0\<close> unless \<open>x = r\<close> or \<open>dx = 0\<close>.
  With \<open>consider_predicted_value_constant\<close>, the derivative of the policy loss does not
  depend on the derivative of the state value used as baseline, and the squared error
  keeps the derivative \<open>2 (x - r) dx\<close> through the state value.\<close>

theorem gradient_blocking:
  assumes "detaches cc"
  shows "(consider_value_reference_constant opts \<longrightarrow>
            tangent (policy_loss_dual cc opts (Dual l 0) (Dual r dr) (Dual x 0)) = 0
          \<and> tangent (policy_loss_dual cc opts (Dual l dl) (Dual r dr) (Dual x dx))
              = tangent (policy_loss_dual cc opts (Dual l dl) (Dual r 0) (Dual x dx))
          \<and> tangent (V_err_dual cc opts (Dual r dr) (Dual x dx)) = 2 * (x - r) * dx
          \<and> (x \<noteq> r \<and> dx \<noteq> 0 \<longrightarrow> tangent (V_err_dual cc opts (Dual r dr) (Dual x dx)) \<noteq> 0))
       \<and> (consider_predicted_value_constant opts \<longrightarrow>
            tangent (policy_loss_dual cc opts (Dual l dl) (Dual r dr) (Dual x dx))
              = tangent (policy_loss_dual cc opts (Dual l dl) (Dual r dr) (Dual x 0))
          \<and> tangent (V_err_dual cc opts (Dual r 0) (Dual x dx)) = 2 * (x - r) * dx
          \<and> (x \<noteq> r \<and> dx \<noteq> 0 \<longrightarrow> tangent (V_err_dual cc opts (Dual r 0) (Dual x dx)) \<noteq> 0))"
  by (simp add: policy_loss_dual_eq[OF assms] V_err_dual_eq[OF assms] algebra_simps)

theorem gradient_blocking_witness:
  "detaches (\<lambda>d. Dual (primal d) 0)
   \<and> consider_value_reference_constant default_options
   \<and> consider_predicted_value_constant default_options
   \<and> tangent (policy_loss_dual (\<lambda>d. Dual (primal d) 0) default_options
                (Dual (- 1) 0) (Dual 5 1) (Dual 3 0)) = 0
   \<and> tangent (policy_loss_dual (\<lambda>d. Dual (primal d) 0) default_options
                (Dual (- 1) 0) (Dual 5 0) (Dual 3 1)) = 0
   \<and> tangent (V_err_dual (\<lambda>d. Dual (primal d) 0) default_options (Dual 5 1) (Dual 3 1)) = - 4
   \<and> tangent (policy_loss_dual (\<lambda>d. Dual (primal d) 0)
                (default_options\<lparr>consider_value_reference_constant := False\<rparr>)
                (Dual (- 1) 0) (Dual 5 1) (Dual 3 0)) = 1"
proof -
  let ?cc = "\<lambda>d. Dual (primal d) 0"
  have h: "detaches ?cc" by (simp add: detaches_def)
  have f: "consider_value_reference_constant default_options"
    "consider_predicted_value_constant default_options"
    by (simp_all add: default_options_def)
  from gradient_blocking[OF h, where opts = default_options and l = "- 1" and r = 5 and x = 3
         and dl = 0 and dr = 1 and dx = 0]
       gradient_blocking[OF h, where opts = default_options and l = "- 1" and r = 5 and x = 3
         and dl = 0 and dr = 0 and dx = 1]
       gradient_blocking[OF h, where opts = default_options and l = "- 1" and r = 5 and x = 3
         and dl = 0 and dr = 1 and dx = 1]
  show ?thesis
    using h f by (simp add: policy_loss_dual_def reference_dual_def observed_dual_def)
qed

end
